theory Spec2Isabelle
  imports Complex_Main "HOL-Library.Word"
begin

section \<open>The standalone renderer's status record (src/tungsten/Shared.hpp)\<close>

text \<open>
  A \<^verbatim>\<open>Path\<close> is used here only through \<^verbatim>\<open>asString()\<close>, so it is the string
  it holds.
\<close>

type_synonym Path = string

text \<open>
  \<^verbatim>\<open>enum RenderState { STATE_LOADING, STATE_RENDERING }\<close> is an unscoped enumeration:
  the enumerators are the integers 0 and 1, and \<^verbatim>\<open>renderStateToString\<close> has a
  \<^verbatim>\<open>default\<close> branch for every other value an object of the type may hold. The model
  keeps the underlying integer, so that the default branch is a branch of the model.
\<close>

type_synonym RenderState = int

definition STATE_LOADING :: RenderState where
  "STATE_LOADING = 0"

definition STATE_RENDERING :: RenderState where
  "STATE_RENDERING = 1"

definition renderStateToString :: "RenderState \<Rightarrow> string" where
  "renderStateToString state =
     (if state = STATE_LOADING then ''loading''
      else if state = STATE_RENDERING then ''rendering''
      else ''unknown'')"

record RendererStatus =
  state :: RenderState
  currentSpp :: int
  nextSpp :: int
  totalSpp :: int
  completedScenes :: "Path list"
  currentScene :: Path
  queuedScenes :: "Path list"

text \<open>
  The part of \<^verbatim>\<open>rapidjson::Value\<close> that \<^verbatim>\<open>toJson\<close> builds: strings, integers, arrays
  and objects. An object is the sequence of its members in insertion order;
  \<^verbatim>\<open>AddMember\<close> appends a member and never looks for an earlier one of the same name,
  \<^verbatim>\<open>PushBack\<close> appends an element to an array.
\<close>

datatype json =
    JString string
  | JInt int
  | JArray "json list"
  | JObject "(string \<times> json) list"

fun AddMember :: "string \<Rightarrow> json \<Rightarrow> json \<Rightarrow> json" where
  "AddMember name v (JObject ms) = JObject (ms @ [(name, v)])"
| "AddMember name v j = j"

fun PushBack :: "json \<Rightarrow> json \<Rightarrow> json" where
  "PushBack v (JArray vs) = JArray (vs @ [v])"
| "PushBack v j = j"

definition asString :: "Path \<Rightarrow> string" where
  "asString p = p"

text \<open>The range-based \<^verbatim>\<open>for\<close> loops of \<^verbatim>\<open>toJson\<close>: one \<^verbatim>\<open>PushBack\<close> per path.\<close>

fun pushPaths :: "Path list \<Rightarrow> json \<Rightarrow> json" where
  "pushPaths [] v = v"
| "pushPaths (p # ps) v = pushPaths ps (PushBack (JString (asString p)) v)"

definition toJson :: "RendererStatus \<Rightarrow> json" where
  "toJson r =
     (let result = JObject [];
          result = AddMember ''state'' (JString (renderStateToString (state r))) result;
          result = AddMember ''current_spp'' (JInt (currentSpp r)) result;
          result = AddMember ''next_spp'' (JInt (nextSpp r)) result;
          result = AddMember ''total_spp'' (JInt (totalSpp r)) result;
          result = AddMember ''current_scene'' (JString (asString (currentScene r))) result;
          result =
            (if completedScenes r \<noteq> []
             then AddMember ''completed_scenes'' (pushPaths (completedScenes r) (JArray [])) result
             else result);
          result =
            (if queuedScenes r \<noteq> []
             then AddMember ''queued_scenes'' (pushPaths (queuedScenes r) (JArray [])) result
             else result)
      in result)"

text \<open>Reading a JSON object: its member names in order, and the first member of a name.\<close>

fun members :: "json \<Rightarrow> (string \<times> json) list" where
  "members (JObject ms) = ms"
| "members j = []"

definition memberNames :: "json \<Rightarrow> string list" where
  "memberNames j = map fst (members j)"

definition HasMember :: "string \<Rightarrow> json \<Rightarrow> bool" where
  "HasMember name j = (name \<in> set (memberNames j))"

definition FindMember :: "string \<Rightarrow> json \<Rightarrow> json option" where
  "FindMember name j = map_of (members j) name"

section \<open>The standalone renderer (src/tungsten/Shared.hpp)\<close>

text \<open>
  The renderer holds two owning pointers, \<^verbatim>\<open>_scene\<close> and \<^verbatim>\<open>_flattenedScene\<close>; the null
  pointer is \<open>None\<close>. The scene and the flattened scene (which owns the integrator) are
  classes of the core library; the model keeps them abstract (\<open>'sc\<close> and \<open>'fl\<close>) and
  reaches them through the member functions the renderer calls. The log stream is the
  sequence of lines written to it. The three mutexes order concurrent callers; one call
  is modelled, running alone.
\<close>

datatype log_line =
    LoadingScene Path
  | SceneLoaderError Path string
  | TryingToResume
  | ResumeSuccessful
  | ResumeUnsuccessful
  | StartingRender
  | Completed int int
  | SavingCheckpointAfter real
  | SavingCheckpointTook real
  | FinishedRender real
  | RendererError Path string

text \<open>
  The command line parser, as the renderer reads it: the operands, and for each option
  (named by its integer constant) whether it is present and its parameter.
\<close>

record CliParser =
  operands :: "string list"
  isPresent :: "int \<Rightarrow> bool"
  param :: "int \<Rightarrow> string"

definition OPT_CHECKPOINTS :: int where
  "OPT_CHECKPOINTS = 0"

definition OPT_THREADS :: int where
  "OPT_THREADS = 1"

definition OPT_VERSION :: int where
  "OPT_VERSION = 2"

definition OPT_HELP :: int where
  "OPT_HELP = 3"

definition OPT_RESTART :: int where
  "OPT_RESTART = 4"

definition OPT_OUTPUT_DIRECTORY :: int where
  "OPT_OUTPUT_DIRECTORY = 5"

record ('sc, 'fl) StandaloneRenderer =
  parser :: CliParser
  checkpointInterval :: int
  threadCount :: int
  outputDirectory :: Path
  scene :: "'sc option"
  flattenedScene :: "'fl option"
  status :: RendererStatus
  logStream :: "log_line list"

definition writeLogLine ::
  "log_line \<Rightarrow> ('sc, 'fl) StandaloneRenderer \<Rightarrow> ('sc, 'fl) StandaloneRenderer" where
  "writeLogLine s r = r\<lparr>logStream := logStream r @ [s]\<rparr>"

subsection \<open>renderScene\<close>

text \<open>
  The scene loader, the scene, the integrator and the timers are reached through their
  member functions, which are not among the sources; they are the fields of \<open>Core\<close>. A
  member function that may throw returns either the exception or its result. The
  accessors of the renderer settings and of the integrator's counters return values. A
  member function that changes the scene or the integrator returns the changed object.
  The reading of a timer is taken from the integrator's state, which stands for
  everything outside the renderer that a pass changes.

  The exceptions are split the way the two \<^verbatim>\<open>catch\<close> clauses split them: a
  \<^verbatim>\<open>std::runtime_error\<close> with its \<^verbatim>\<open>what()\<close>, and every other exception.
\<close>

datatype exception = RuntimeError string | OtherException string

record ('sc, 'fl) Core =
  Scene_load :: "Path \<Rightarrow> exception + 'sc"
  loadResources :: "'sc \<Rightarrow> exception + 'sc"
  spp :: "'sc \<Rightarrow> int"
  checkpointIntervalOf :: "'sc \<Rightarrow> int"
  enableResumeRender :: "'sc \<Rightarrow> bool"
  setOutputDirectory :: "Path \<Rightarrow> 'sc \<Rightarrow> 'sc"
  DirectoryChange :: "'sc \<Rightarrow> exception + unit"
  makeTraceable :: "'sc \<Rightarrow> exception + 'fl"
  resumeRender :: "'sc \<Rightarrow> 'fl \<Rightarrow> exception + (bool \<times> 'fl)"
  integratorDone :: "'fl \<Rightarrow> bool"
  integratorCurrentSpp :: "'fl \<Rightarrow> int"
  integratorNextSpp :: "'fl \<Rightarrow> int"
  startRender :: "'fl \<Rightarrow> exception + 'fl"
  waitForCompletion :: "'fl \<Rightarrow> exception + 'fl"
  saveCheckpoint :: "'fl \<Rightarrow> exception + 'fl"
  saveRenderResumeData :: "'sc \<Rightarrow> 'fl \<Rightarrow> exception + 'fl"
  saveOutputs :: "'fl \<Rightarrow> exception + 'fl"
  checkpointTimerElapsed :: "'fl \<Rightarrow> real"
  timerElapsed :: "'fl \<Rightarrow> real"
  ioTimerElapsed :: "'fl \<Rightarrow> real"

text \<open>
  Inside a \<^verbatim>\<open>try\<close> block a statement either throws, and the exception leaves the block
  with the renderer as it is at that point, or goes on to the next statement.
\<close>

definition andThen ::
  "(exception \<times> 'r) + 'a \<Rightarrow> ('a \<Rightarrow> (exception \<times> 'r) + 'b) \<Rightarrow> (exception \<times> 'r) + 'b" where
  "andThen x f = (case x of Inl er \<Rightarrow> Inl er | Inr a \<Rightarrow> f a)"

text \<open>
  The locals of the second \<^verbatim>\<open>try\<close> block that change: \<^verbatim>\<open>totalElapsed\<close>, the integrator
  (a reference into \<^verbatim>\<open>*_flattenedScene\<close>, so the renderer's pointer sees every change) and
  the renderer itself.
\<close>

type_synonym ('sc, 'fl) locals = "real \<times> 'fl \<times> ('sc, 'fl) StandaloneRenderer"

definition integratorCall ::
  "('fl \<Rightarrow> exception + 'fl) \<Rightarrow> ('sc, 'fl) locals
     \<Rightarrow> (exception \<times> ('sc, 'fl) StandaloneRenderer) + ('sc, 'fl) locals" where
  "integratorCall f s =
     (case s of (totalElapsed, fl, r) \<Rightarrow>
        (case f fl of
           Inl e \<Rightarrow> Inl (e, r)
         | Inr fl' \<Rightarrow> Inr (totalElapsed, fl', r\<lparr>flattenedScene := Some fl'\<rparr>)))"

text \<open>
  The \<^verbatim>\<open>int\<close> members hold values of the 32-bit type; the renderer copies and compares
  them, and multiplies one: \<^verbatim>\<open>_checkpointInterval*60\<close> is an \<^verbatim>\<open>int\<close> product, converted
  to \<^verbatim>\<open>double\<close> only for the comparison with the timer. \<open>int32 k\<close> is the value the
  32-bit arithmetic leaves for the exact result \<open>k\<close>: the low 32 bits, read as two's
  complement. (The overflow of a signed product is undefined in the language; the
  wrap-around is what the compiled renderer computes.)
\<close>

definition int32 :: "int \<Rightarrow> int" where
  "int32 k = sint (word_of_int k :: 32 word)"

text \<open>The body of \<^verbatim>\<open>if (_checkpointInterval > 0 && checkpointTimer.elapsed() > ...)\<close>.\<close>

definition saveCheckpointStep ::
  "('sc, 'fl) Core \<Rightarrow> 'sc \<Rightarrow> ('sc, 'fl) locals
     \<Rightarrow> (exception \<times> ('sc, 'fl) StandaloneRenderer) + ('sc, 'fl) locals" where
  "saveCheckpointStep core sc s =
     (case s of (totalElapsed, fl, r) \<Rightarrow>
        (let totalElapsed = totalElapsed + checkpointTimerElapsed core fl;
             r = writeLogLine (SavingCheckpointAfter totalElapsed) r
         in andThen (integratorCall (saveCheckpoint core) (totalElapsed, fl, r)) (\<lambda>s.
            andThen (if enableResumeRender core sc
                     then integratorCall (saveRenderResumeData core sc) s
                     else Inr s) (\<lambda>s.
            case s of (totalElapsed, fl, r) \<Rightarrow>
              Inr (totalElapsed, fl, writeLogLine (SavingCheckpointTook (ioTimerElapsed core fl)) r)))))"

text \<open>The body of \<^verbatim>\<open>while (!integrator.done())\<close>: one pass.\<close>

definition renderPass ::
  "('sc, 'fl) Core \<Rightarrow> 'sc \<Rightarrow> int \<Rightarrow> ('sc, 'fl) locals
     \<Rightarrow> (exception \<times> ('sc, 'fl) StandaloneRenderer) + ('sc, 'fl) locals" where
  "renderPass core sc maxSpp s =
     (case s of (totalElapsed, fl, r) \<Rightarrow>
        (let r = r\<lparr>status := (status r)\<lparr>state := STATE_RENDERING,
                                          currentSpp := integratorCurrentSpp core fl,
                                          nextSpp := integratorNextSpp core fl\<rparr>\<rparr>
         in andThen (integratorCall (startRender core) (totalElapsed, fl, r)) (\<lambda>s.
            andThen (integratorCall (waitForCompletion core) s) (\<lambda>s.
            case s of (totalElapsed, fl, r) \<Rightarrow>
              (let r = writeLogLine (Completed (integratorCurrentSpp core fl) maxSpp) r
               in if checkpointInterval r > 0
                     \<and> checkpointTimerElapsed core fl
                         > real_of_int (int32 (checkpointInterval r * 60))
                  then saveCheckpointStep core sc (totalElapsed, fl, r)
                  else Inr (totalElapsed, fl, r))))))"

text \<open>
  The loop itself. The integrator decides when it is done, so the loop may run forever:
  \<open>None\<close> is the run that never leaves it.
\<close>

partial_function (option) renderLoop ::
  "('sc, 'fl) Core \<Rightarrow> 'sc \<Rightarrow> int \<Rightarrow> ('sc, 'fl) locals
     \<Rightarrow> ((exception \<times> ('sc, 'fl) StandaloneRenderer) + ('sc, 'fl) locals) option" where
  "renderLoop core sc maxSpp s =
     (if integratorDone core (fst (snd s)) then Some (Inr s)
      else (case renderPass core sc maxSpp s of
              Inl er \<Rightarrow> Some (Inl er)
            | Inr s' \<Rightarrow> renderLoop core sc maxSpp s'))"

text \<open>The second \<^verbatim>\<open>try\<close> block up to the loop.\<close>

definition prepareRender ::
  "('sc, 'fl) Core \<Rightarrow> 'sc \<Rightarrow> ('sc, 'fl) StandaloneRenderer
     \<Rightarrow> (exception \<times> ('sc, 'fl) StandaloneRenderer) + ('sc \<times> ('sc, 'fl) locals)" where
  "prepareRender core sc r =
     (case DirectoryChange core sc of
        Inl e \<Rightarrow> Inl (e, r)
      | Inr context \<Rightarrow>
          (let sc = (if isPresent (parser r) OPT_OUTPUT_DIRECTORY
                     then setOutputDirectory core (outputDirectory r) sc else sc);
               r = r\<lparr>scene := Some sc\<rparr>
           in case makeTraceable core sc of
                Inl e \<Rightarrow> Inl (e, r)
              | Inr fl \<Rightarrow>
                  (let r = r\<lparr>flattenedScene := Some fl\<rparr>;
                       r = (if \<not> isPresent (parser r) OPT_CHECKPOINTS
                            then r\<lparr>checkpointInterval := checkpointIntervalOf core sc\<rparr> else r)
                   in if enableResumeRender core sc \<and> \<not> isPresent (parser r) OPT_RESTART
                      then (let r = writeLogLine TryingToResume r
                            in case resumeRender core sc fl of
                                 Inl e \<Rightarrow> Inl (e, r)
                               | Inr (resumed, fl) \<Rightarrow>
                                   (let r = r\<lparr>flattenedScene := Some fl\<rparr>;
                                        r = (if resumed then writeLogLine ResumeSuccessful r
                                             else writeLogLine ResumeUnsuccessful r)
                                    in Inr (sc, 0, fl, writeLogLine StartingRender r)))
                      else Inr (sc, 0, fl, writeLogLine StartingRender r))))"

text \<open>The second \<^verbatim>\<open>try\<close> block after the loop.\<close>

definition finishRender ::
  "('sc, 'fl) Core \<Rightarrow> Path \<Rightarrow> 'sc \<Rightarrow> ('sc, 'fl) locals
     \<Rightarrow> (exception \<times> ('sc, 'fl) StandaloneRenderer) + ('sc, 'fl) StandaloneRenderer" where
  "finishRender core currentScene' sc s =
     (case s of (totalElapsed, fl, r) \<Rightarrow>
        (let r = writeLogLine (FinishedRender (timerElapsed core fl)) r
         in andThen (integratorCall (saveOutputs core) (totalElapsed, fl, r)) (\<lambda>s.
            andThen (if enableResumeRender core sc
                     then integratorCall (saveRenderResumeData core sc) s
                     else Inr s) (\<lambda>s.
            case s of (totalElapsed, fl, r) \<Rightarrow>
              Inr (r\<lparr>status := (status r)\<lparr>completedScenes :=
                                   completedScenes (status r) @ [currentScene']\<rparr>\<rparr>)))))"

text \<open>The whole second \<^verbatim>\<open>try\<close> block.\<close>

definition tryRender ::
  "('sc, 'fl) Core \<Rightarrow> Path \<Rightarrow> 'sc \<Rightarrow> ('sc, 'fl) StandaloneRenderer
     \<Rightarrow> ((exception \<times> ('sc, 'fl) StandaloneRenderer) + ('sc, 'fl) StandaloneRenderer) option" where
  "tryRender core currentScene' sc r =
     (case prepareRender core sc r of
        Inl er \<Rightarrow> Some (Inl er)
      | Inr (sc, s) \<Rightarrow>
          (case renderLoop core sc (spp core sc) s of
             None \<Rightarrow> None
           | Some (Inl er) \<Rightarrow> Some (Inl er)
           | Some (Inr s') \<Rightarrow> Some (finishRender core currentScene' sc s')))"

text \<open>
  The first \<^verbatim>\<open>try\<close> block: \<^verbatim>\<open>_scene.reset(Scene::load(...))\<close>, then
  \<^verbatim>\<open>_scene->loadResources()\<close>.
\<close>

definition tryLoad ::
  "('sc, 'fl) Core \<Rightarrow> Path \<Rightarrow> ('sc, 'fl) StandaloneRenderer
     \<Rightarrow> (exception \<times> ('sc, 'fl) StandaloneRenderer) + ('sc \<times> ('sc, 'fl) StandaloneRenderer)" where
  "tryLoad core currentScene' r =
     (case Scene_load core currentScene' of
        Inl e \<Rightarrow> Inl (e, r)
      | Inr sc \<Rightarrow>
          (let r = r\<lparr>scene := Some sc\<rparr>
           in case loadResources core sc of
                Inl e \<Rightarrow> Inl (e, r)
              | Inr sc \<Rightarrow> Inr (sc, r\<lparr>scene := Some sc\<rparr>)))"

text \<open>
  How a call of \<^verbatim>\<open>renderScene\<close> ends: it returns a value, or an exception that no
  \<^verbatim>\<open>catch\<close> clause takes leaves it. The result is that and the renderer afterwards;
  \<open>None\<close> is the call that never ends.
\<close>

datatype 'a outcome = Returned 'a | Propagated exception

text \<open>
  The first block after its test for an empty queue: the status is reset, the front of
  the queue becomes the current scene and is popped.
\<close>

definition nextScene :: "('sc, 'fl) StandaloneRenderer \<Rightarrow> ('sc, 'fl) StandaloneRenderer" where
  "nextScene r =
     r\<lparr>status := (status r)\<lparr>state := STATE_LOADING,
                              currentSpp := 0, nextSpp := 0, totalSpp := 0,
                              currentScene := hd (queuedScenes (status r)),
                              queuedScenes := tl (queuedScenes (status r))\<rparr>\<rparr>"

definition renderScene ::
  "('sc, 'fl) Core \<Rightarrow> ('sc, 'fl) StandaloneRenderer
     \<Rightarrow> (bool outcome \<times> ('sc, 'fl) StandaloneRenderer) option" where
  "renderScene core r =
     (if queuedScenes (status r) = [] then Some (Returned False, r)
      else
        (let r = nextScene r;
             currentScene' = currentScene (status r);
             r = writeLogLine (LoadingScene currentScene') r
         in case tryLoad core currentScene' r of
              Inl (RuntimeError what, r) \<Rightarrow>
                (let r = writeLogLine (SceneLoaderError currentScene' what) r
                 in Some (Returned True, r\<lparr>scene := None\<rparr>))
            | Inl (OtherException what, r) \<Rightarrow> Some (Propagated (OtherException what), r)
            | Inr (sc, r) \<Rightarrow>
                (let r = r\<lparr>status := (status r)\<lparr>totalSpp := spp core sc\<rparr>\<rparr>
                 in case tryRender core currentScene' sc r of
                      None \<Rightarrow> None
                    | Some (Inl (OtherException what, r)) \<Rightarrow>
                        Some (Propagated (OtherException what), r)
                    | Some (Inl (RuntimeError what, r)) \<Rightarrow>
                        (let r = writeLogLine (RendererError currentScene' what) r
                         in Some (Returned True, r\<lparr>flattenedScene := None, scene := None\<rparr>))
                    | Some (Inr r) \<Rightarrow>
                        Some (Returned True, r\<lparr>flattenedScene := None, scene := None\<rparr>))))"

text \<open>
  Two notions for stating what \<^verbatim>\<open>renderScene\<close> does: the part of the status that the
  queue discipline is about, and a core library whose member functions throw nothing
  but \<^verbatim>\<open>std::runtime_error\<close>.
\<close>

definition queueState :: "('sc, 'fl) StandaloneRenderer \<Rightarrow> Path list \<times> Path" where
  "queueState r = (queuedScenes (status r), currentScene (status r))"

definition throwsOnlyRuntimeError :: "('sc, 'fl) Core \<Rightarrow> bool" where
  "throwsOnlyRuntimeError core =
     (\<forall>what.
        (\<forall>p. Scene_load core p \<noteq> Inl (OtherException what))
      \<and> (\<forall>sc. loadResources core sc \<noteq> Inl (OtherException what))
      \<and> (\<forall>sc. DirectoryChange core sc \<noteq> Inl (OtherException what))
      \<and> (\<forall>sc. makeTraceable core sc \<noteq> Inl (OtherException what))
      \<and> (\<forall>sc fl. resumeRender core sc fl \<noteq> Inl (OtherException what))
      \<and> (\<forall>fl. startRender core fl \<noteq> Inl (OtherException what))
      \<and> (\<forall>fl. waitForCompletion core fl \<noteq> Inl (OtherException what))
      \<and> (\<forall>fl. saveCheckpoint core fl \<noteq> Inl (OtherException what))
      \<and> (\<forall>sc fl. saveRenderResumeData core sc fl \<noteq> Inl (OtherException what))
      \<and> (\<forall>fl. saveOutputs core fl \<noteq> Inl (OtherException what)))"

text \<open>
  An integrator that finishes: some count of what remains to be rendered goes down with
  every pass that the loop completes.
\<close>

definition integratorProgresses :: "('sc, 'fl) Core \<Rightarrow> bool" where
  "integratorProgresses core =
     (\<exists>remaining :: 'fl \<Rightarrow> nat.
        \<forall>sc m t fl r t' fl' r'.
          \<not> integratorDone core fl \<and> renderPass core sc m (t, fl, r) = Inr (t', fl', r')
            \<longrightarrow> remaining fl' < remaining fl)"

text \<open>The renderer that an exception or the last statement of a block leaves behind.\<close>

definition rendererOf ::
  "(exception \<times> ('sc, 'fl) StandaloneRenderer) + ('sc, 'fl) locals \<Rightarrow> ('sc, 'fl) StandaloneRenderer" where
  "rendererOf x = (case x of Inl (e, r) \<Rightarrow> r | Inr (t, fl, r) \<Rightarrow> r)"

text \<open>
  A core library for concrete runs. A scene is the path it was loaded from and the
  integrator's state is the number of passes it has rendered. Loading \<^verbatim>\<open>bad.json\<close>
  throws a \<^verbatim>\<open>std::runtime_error\<close>, so does making \<^verbatim>\<open>empty.json\<close> traceable, and every
  render is done after two passes. \<open>queuedRenderer ps\<close> is the renderer after
  \<^verbatim>\<open>setup()\<close> with the operands \<open>ps\<close>.
\<close>

definition exampleCore :: "(Path, nat) Core" where
  "exampleCore =
     \<lparr>Scene_load = (\<lambda>p. if p = ''bad.json'' then Inl (RuntimeError ''parse error'') else Inr p),
      loadResources = (\<lambda>sc. Inr sc),
      spp = (\<lambda>sc. 2),
      checkpointIntervalOf = (\<lambda>sc. 0),
      enableResumeRender = (\<lambda>sc. False),
      setOutputDirectory = (\<lambda>dir sc. sc),
      DirectoryChange = (\<lambda>sc. Inr ()),
      makeTraceable = (\<lambda>sc. if sc = ''empty.json'' then Inl (RuntimeError ''no camera'') else Inr 0),
      resumeRender = (\<lambda>sc fl. Inr (False, fl)),
      integratorDone = (\<lambda>fl. 2 \<le> fl),
      integratorCurrentSpp = (\<lambda>fl. int fl),
      integratorNextSpp = (\<lambda>fl. int fl + 1),
      startRender = (\<lambda>fl. Inr fl),
      waitForCompletion = (\<lambda>fl. Inr (fl + 1)),
      saveCheckpoint = (\<lambda>fl. Inr fl),
      saveRenderResumeData = (\<lambda>sc fl. Inr fl),
      saveOutputs = (\<lambda>fl. Inr fl),
      checkpointTimerElapsed = (\<lambda>fl. 0),
      timerElapsed = (\<lambda>fl. 0),
      ioTimerElapsed = (\<lambda>fl. 0)\<rparr>"

definition queuedRenderer :: "Path list \<Rightarrow> (Path, nat) StandaloneRenderer" where
  "queuedRenderer ps =
     \<lparr>parser = \<lparr>operands = ps, isPresent = (\<lambda>opt. False), param = (\<lambda>opt. [])\<rparr>,
      checkpointInterval = 0, threadCount = 1, outputDirectory = [],
      scene = None, flattenedScene = None,
      status = \<lparr>state = STATE_LOADING, currentSpp = 0, nextSpp = 0, totalSpp = 0,
                 completedScenes = [], currentScene = [], queuedScenes = ps\<rparr>,
      logStream = []\<rparr>"

text \<open>
  Two more core libraries for concrete runs: one whose scene loader throws an exception
  that is not a \<^verbatim>\<open>std::runtime_error\<close>, and one whose integrator never reports that it
  is done.
\<close>

definition throwingCore :: "(Path, nat) Core" where
  "throwingCore = exampleCore\<lparr>Scene_load := (\<lambda>p. Inl (OtherException ''std::bad_alloc''))\<rparr>"

definition endlessCore :: "(Path, nat) Core" where
  "endlessCore = exampleCore\<lparr>integratorDone := (\<lambda>fl. False)\<rparr>"

subsection \<open>frameBuffer\<close>

text \<open>
  \<^verbatim>\<open>Vec2u\<close> holds two \<^verbatim>\<open>uint32\<close>, \<^verbatim>\<open>Vec3c\<close> three \<^verbatim>\<open>uint8\<close>, \<^verbatim>\<open>Vec2i\<close> and \<^verbatim>\<open>Vec3i\<close>
  hold \<^verbatim>\<open>int\<close>. The 32-bit unsigned values are words, since the buffer size and the
  pixel index are computed in them. The \<^verbatim>\<open>int\<close> components are only compared and
  converted, never added or multiplied; they are integers, and the conversions write the
  wrap-around out.
\<close>

type_synonym uint32 = "32 word"
type_synonym uint8 = "8 word"
type_synonym Vec2u = "uint32 \<times> uint32"
type_synonym Vec2i = "int \<times> int"
type_synonym Vec3i = "int \<times> int \<times> int"
type_synonym Vec3c = "uint8 \<times> uint8 \<times> uint8"

text \<open>
  The camera of a scene, as \<^verbatim>\<open>frameBuffer\<close> uses it: \<^verbatim>\<open>camera()->resolution()\<close>,
  \<^verbatim>\<open>camera()->get(x, y)\<close> with a pixel value of type \<open>'px\<close> (a \<^verbatim>\<open>Vec3f\<close>), and the
  expression \<^verbatim>\<open>Vec3i(v*255.0f)\<close>, which multiplies and truncates in floating point and
  is taken as the parameter \<open>scale255\<close>. The parameter is total: that the conversion
  of a floating-point value outside the range of \<^verbatim>\<open>int\<close> is undefined is not modelled.
\<close>

record ('sc, 'px) Camera =
  resolution :: "'sc \<Rightarrow> Vec2u"
  get :: "'sc \<Rightarrow> uint32 \<Rightarrow> uint32 \<Rightarrow> 'px"
  scale255 :: "'px \<Rightarrow> Vec3i"

text \<open>
  Modelled from the spec: \<^verbatim>\<open>Vec::product\<close>, \<^verbatim>\<open>clamp\<close> and the converting constructors
  of \<^verbatim>\<open>Vec\<close> are declared in the core library's math headers, which are not among the
  sources, and the specification does not describe them. They are taken to be what
  their names and their use in \<^verbatim>\<open>frameBuffer\<close> say: \<open>product\<close> multiplies the components
  in the element type, \<open>clamp\<close> is \<^verbatim>\<open>min(max(val, minVal), maxVal)\<close> component by
  component, and a converting constructor converts each component (\<^verbatim>\<open>int\<close> to \<^verbatim>\<open>uint8\<close>
  keeps the low eight bits, \<^verbatim>\<open>uint32\<close> to \<^verbatim>\<open>int\<close> reads the same 32 bits as two's
  complement).
\<close>

definition product :: "Vec2u \<Rightarrow> uint32" where
  "product res = fst res * snd res"

definition clamp :: "int \<Rightarrow> int \<Rightarrow> int \<Rightarrow> int" where
  "clamp val minVal maxVal = min (max val minVal) maxVal"

definition clampVec3i :: "Vec3i \<Rightarrow> int \<Rightarrow> int \<Rightarrow> Vec3i" where
  "clampVec3i v minVal maxVal =
     (case v of (a, b, c) \<Rightarrow> (clamp a minVal maxVal, clamp b minVal maxVal, clamp c minVal maxVal))"

definition Vec3c_of :: "Vec3i \<Rightarrow> Vec3c" where
  "Vec3c_of v = (case v of (a, b, c) \<Rightarrow> (word_of_int a, word_of_int b, word_of_int c))"

definition Vec2i_of :: "Vec2u \<Rightarrow> Vec2i" where
  "Vec2i_of res = (sint (fst res), sint (snd res))"

text \<open>The value stored for the pixel \<open>(x, y)\<close>: the right-hand side of the assignment.\<close>

definition ldrPixel :: "('sc, 'px) Camera \<Rightarrow> 'sc \<Rightarrow> uint32 \<Rightarrow> uint32 \<Rightarrow> Vec3c" where
  "ldrPixel cam sc x y = Vec3c_of (clampVec3i (scale255 cam (get cam sc x y)) 0 255)"

text \<open>
  \<^verbatim>\<open>new Vec3c[n]\<close> leaves its elements uninitialised: the buffer is a list of \<open>n\<close>
  elements, each \<open>None\<close> until it is assigned. An assignment past the end of the array
  is undefined behaviour, which the model reports as the fault \<open>OutOfBounds\<close>.
\<close>

datatype fault = OutOfBounds

text \<open>A counter below a bound of its own width is incremented without wrapping.\<close>

lemma unat_succ_less:
  fixes x m :: "'a::len word"
  assumes "x < m"
  shows "unat (x + 1) = Suc (unat x)"
proof -
  have "unat x < unat m"
    using assms by (simp add: word_less_nat_alt)
  moreover have "unat m < 2 ^ LENGTH('a)"
    by (rule unsigned_less)
  moreover have "unat (1 :: 'a word) = 1"
    by simp
  ultimately have "unat x + unat (1 :: 'a word) < 2 ^ LENGTH('a)"
    by linarith
  then have "unat (x + 1) = unat x + unat (1 :: 'a word)"
    by (rule unat_add_lem [THEN iffD1])
  then show ?thesis
    by simp
qed

text \<open>The inner loop, \<^verbatim>\<open>for (uint32 x = 0; x < res.x(); ++x)\<close>, from the counter \<open>x\<close> on.\<close>

function fillRow ::
  "('sc, 'px) Camera \<Rightarrow> 'sc \<Rightarrow> Vec2u \<Rightarrow> uint32 \<Rightarrow> uint32 \<Rightarrow> Vec3c option list
     \<Rightarrow> fault + Vec3c option list" where
  "fillRow cam sc res y x ldr =
     (if x < fst res
      then (let i = x + y * fst res
            in if unat i < length ldr
               then fillRow cam sc res y (x + 1) (ldr[unat i := Some (ldrPixel cam sc x y)])
               else Inl OutOfBounds)
      else Inr ldr)"
  by pat_completeness auto
termination
proof (relation "measure (\<lambda>(cam, sc, res, y, x, ldr). unat (fst res) - unat x)")
  show "wf (measure (\<lambda>(cam, sc, res, y, x, ldr). unat (fst res) - unat x))"
    by simp
next
  fix cam :: "('sc, 'px) Camera" and sc :: 'sc and res :: Vec2u and y x i :: uint32
    and ldr :: "Vec3c option list"
  assume lt: "x < fst res"
  then have "unat (x + 1) = Suc (unat x)"
    by (rule unat_succ_less)
  moreover from lt have "unat x < unat (fst res)"
    by (simp add: word_less_nat_alt)
  ultimately show
    "((cam, sc, res, y, x + 1, ldr[unat i := Some (ldrPixel cam sc x y)]), (cam, sc, res, y, x, ldr))
       \<in> measure (\<lambda>(cam, sc, res, y, x, ldr). unat (fst res) - unat x)"
    by simp
qed

declare fillRow.simps [simp del]

text \<open>The outer loop, \<^verbatim>\<open>for (uint32 y = 0; y < res.y(); ++y)\<close>, from the counter \<open>y\<close> on.\<close>

function fillRows ::
  "('sc, 'px) Camera \<Rightarrow> 'sc \<Rightarrow> Vec2u \<Rightarrow> uint32 \<Rightarrow> Vec3c option list
     \<Rightarrow> fault + Vec3c option list" where
  "fillRows cam sc res y ldr =
     (if y < snd res
      then (case fillRow cam sc res y 0 ldr of
              Inl f \<Rightarrow> Inl f
            | Inr ldr' \<Rightarrow> fillRows cam sc res (y + 1) ldr')
      else Inr ldr)"
  by pat_completeness auto
termination
proof (relation "measure (\<lambda>(cam, sc, res, y, ldr). unat (snd res) - unat y)")
  show "wf (measure (\<lambda>(cam, sc, res, y, ldr). unat (snd res) - unat y))"
    by simp
next
  fix cam :: "('sc, 'px) Camera" and sc :: 'sc and res :: Vec2u and y :: uint32
    and ldr ldr' :: "Vec3c option list"
  assume lt: "y < snd res"
  then have "unat (y + 1) = Suc (unat y)"
    by (rule unat_succ_less)
  moreover from lt have "unat y < unat (snd res)"
    by (simp add: word_less_nat_alt)
  ultimately show
    "((cam, sc, res, y + 1, ldr'), (cam, sc, res, y, ldr))
       \<in> measure (\<lambda>(cam, sc, res, y, ldr). unat (snd res) - unat y)"
    by simp
qed

declare fillRows.simps [simp del]

text \<open>
  \<^verbatim>\<open>frameBuffer(Vec2i &resolution)\<close>: the result is the returned pointer (\<open>None\<close> is
  \<^verbatim>\<open>nullptr\<close>) together with the value of the reference parameter afterwards.
\<close>

definition frameBuffer ::
  "('sc, 'px) Camera \<Rightarrow> ('sc, 'fl) StandaloneRenderer \<Rightarrow> Vec2i
     \<Rightarrow> fault + (Vec3c option list option \<times> Vec2i)" where
  "frameBuffer cam r resolution' =
     (case scene r of
        None \<Rightarrow> Inr (None, resolution')
      | Some sc \<Rightarrow>
          (case flattenedScene r of
             None \<Rightarrow> Inr (None, resolution')
           | Some fl \<Rightarrow>
               (let res = resolution cam sc;
                    ldr = replicate (unat (product res)) None
                in case fillRows cam sc res 0 ldr of
                     Inl f \<Rightarrow> Inl f
                   | Inr ldr' \<Rightarrow> Inr (Some ldr', Vec2i_of res))))"

text \<open>
  What the loops are to leave at index \<open>i\<close> of the buffer: the pixel of column
  \<open>i mod width\<close> and row \<open>i div width\<close>.
\<close>

definition pixelAt :: "('sc, 'px) Camera \<Rightarrow> 'sc \<Rightarrow> nat \<Rightarrow> Vec3c" where
  "pixelAt cam sc i =
     ldrPixel cam sc (of_nat (i mod unat (fst (resolution cam sc))))
       (of_nat (i div unat (fst (resolution cam sc))))"

text \<open>
  Two cameras and a renderer with a scene loaded, for concrete runs: a camera of 2 by 1
  pixels, and one of 65536 by 65536 pixels.
\<close>

definition exampleCamera :: "(unit, int) Camera" where
  "exampleCamera = \<lparr>resolution = (\<lambda>sc. (2, 1)), get = (\<lambda>sc x y. if x = 0 then 300 else -5),
           scale255 = (\<lambda>v. (v, v + 22, 17))\<rparr>"

definition hugeCamera :: "(unit, int) Camera" where
  "hugeCamera = \<lparr>resolution = (\<lambda>sc. (65536, 65536)), get = (\<lambda>sc x y. 0),
           scale255 = (\<lambda>v. (v, v, v))\<rparr>"

definition loadedRenderer :: "(unit, unit) StandaloneRenderer" where
  "loadedRenderer = \<lparr>parser = \<lparr>operands = [], isPresent = (\<lambda>opt. False), param = (\<lambda>opt. [])\<rparr>,
            checkpointInterval = 0, threadCount = 1, outputDirectory = [],
            scene = Some (), flattenedScene = Some (),
            status = \<lparr>state = STATE_RENDERING, currentSpp = 0, nextSpp = 0, totalSpp = 0,
                       completedScenes = [], currentScene = [], queuedScenes = []\<rparr>,
            logStream = []\<rparr>"

section \<open>The bidirectional path tracer (src/core/integrators/bidirectional_path_tracer)\<close>

text \<open>
  \<^verbatim>\<open>BidirectionalPathTracer.hpp\<close> declares the class: the splat buffer, the light sampler,
  the two vertex buffers, \<^verbatim>\<open>traceCameraPath\<close>, \<^verbatim>\<open>traceLightPath\<close> and \<^verbatim>\<open>traceSample\<close>.
  The bodies of the member functions and \<^verbatim>\<open>PathVertex\<close> are not among the sources. The
  two definitions below follow the specification's description of the weighting and of
  the termination step, over the real numbers.
\<close>

text \<open>
  Modelled from the spec: the balance-heuristic weight of the connection and MIS
  evaluation, whose code is missing. Section 4.4: for the fixed total length, enumerate
  every alternative strategy that could have produced the same path, compute the ratio
  of the sampling density of the path under each alternative to its density under the
  strategy used, and weight inversely to the sum of these relative densities. \<open>pdfs\<close>
  lists the density of the path under each valid alternative, \<open>used\<close> and \<open>alt\<close> are
  positions in that list.
\<close>

definition relativeDensity :: "real list \<Rightarrow> nat \<Rightarrow> nat \<Rightarrow> real" where
  "relativeDensity pdfs used alt = pdfs ! alt / pdfs ! used"

definition misWeight :: "real list \<Rightarrow> nat \<Rightarrow> real" where
  "misWeight pdfs used = 1 / (\<Sum>alt\<leftarrow>[0..<length pdfs]. relativeDensity pdfs used alt)"

definition misWeightSum :: "real list \<Rightarrow> real" where
  "misWeightSum pdfs = (\<Sum>used\<leftarrow>[0..<length pdfs]. misWeight pdfs used)"

text \<open>
  Modelled from the spec: the Russian roulette step of the two path constructors, whose
  code is missing. Section 4.2: the continuation probability is
  \<^verbatim>\<open>min(1, luminance(throughput))\<close>; the path that survives has its throughput divided by
  the continuation probability, the other one ends (and carries nothing further). The
  step is given as its outcomes, each the probability and the throughput carried on;
  the expectation of a list of outcomes is the sum of probability times value.
\<close>

definition continuationProbability :: "real \<Rightarrow> real" where
  "continuationProbability luminance = min 1 luminance"

definition russianRoulette :: "real \<Rightarrow> real \<Rightarrow> (real \<times> real) list" where
  "russianRoulette p throughput = [(p, throughput / p), (1 - p, 0)]"

definition expectation :: "(real \<times> real) list \<Rightarrow> real" where
  "expectation outcomes = (\<Sum>(q, v)\<leftarrow>outcomes. q * v)"

section \<open>Properties of the status record's JSON form\<close>

lemma pushPaths_JArray: "pushPaths ps (JArray vs) = JArray (vs @ map JString ps)"
  by (induction ps arbitrary: vs) (simp_all add: asString_def)

lemma members_toJson:
  "members (toJson r) =
     [(''state'', JString (renderStateToString (state r))),
      (''current_spp'', JInt (currentSpp r)),
      (''next_spp'', JInt (nextSpp r)),
      (''total_spp'', JInt (totalSpp r)),
      (''current_scene'', JString (currentScene r))]
     @ (if completedScenes r \<noteq> []
        then [(''completed_scenes'', JArray (map JString (completedScenes r)))] else [])
     @ (if queuedScenes r \<noteq> []
        then [(''queued_scenes'', JArray (map JString (queuedScenes r)))] else [])"
  by (simp add: toJson_def Let_def pushPaths_JArray asString_def)

text \<open>
  Claim C10. \<^verbatim>\<open>RendererStatus::toJson\<close> returns an object whose members are, in this
  order, \<^verbatim>\<open>state\<close>, \<^verbatim>\<open>current_spp\<close>, \<^verbatim>\<open>next_spp\<close>, \<^verbatim>\<open>total_spp\<close> and \<^verbatim>\<open>current_scene\<close>,
  followed by \<^verbatim>\<open>completed_scenes\<close> exactly when the vector of completed scenes is not
  empty and by \<^verbatim>\<open>queued_scenes\<close> exactly when the deque of queued scenes is not empty.
  The five fixed members carry the fields of the record, the two arrays carry the paths
  in order, and the \<^verbatim>\<open>state\<close> member is \<^verbatim>\<open>loading\<close> for \<^verbatim>\<open>STATE_LOADING\<close>, \<^verbatim>\<open>rendering\<close>
  for \<^verbatim>\<open>STATE_RENDERING\<close> and \<^verbatim>\<open>unknown\<close> for every other value.
\<close>

theorem toJson_members:
  "memberNames (toJson r) =
     [''state'', ''current_spp'', ''next_spp'', ''total_spp'', ''current_scene'']
     @ (if completedScenes r \<noteq> [] then [''completed_scenes''] else [])
     @ (if queuedScenes r \<noteq> [] then [''queued_scenes''] else [])
   \<and> HasMember ''state'' (toJson r) \<and> HasMember ''current_spp'' (toJson r)
   \<and> HasMember ''next_spp'' (toJson r) \<and> HasMember ''total_spp'' (toJson r)
   \<and> HasMember ''current_scene'' (toJson r)
   \<and> (HasMember ''completed_scenes'' (toJson r) = (completedScenes r \<noteq> []))
   \<and> (HasMember ''queued_scenes'' (toJson r) = (queuedScenes r \<noteq> []))
   \<and> FindMember ''current_spp'' (toJson r) = Some (JInt (currentSpp r))
   \<and> FindMember ''next_spp'' (toJson r) = Some (JInt (nextSpp r))
   \<and> FindMember ''total_spp'' (toJson r) = Some (JInt (totalSpp r))
   \<and> FindMember ''current_scene'' (toJson r) = Some (JString (currentScene r))
   \<and> (completedScenes r \<noteq> [] \<longrightarrow>
        FindMember ''completed_scenes'' (toJson r) = Some (JArray (map JString (completedScenes r))))
   \<and> (queuedScenes r \<noteq> [] \<longrightarrow>
        FindMember ''queued_scenes'' (toJson r) = Some (JArray (map JString (queuedScenes r))))
   \<and> (state r = STATE_LOADING \<longrightarrow> FindMember ''state'' (toJson r) = Some (JString ''loading''))
   \<and> (state r = STATE_RENDERING \<longrightarrow> FindMember ''state'' (toJson r) = Some (JString ''rendering''))
   \<and> (state r \<noteq> STATE_LOADING \<and> state r \<noteq> STATE_RENDERING \<longrightarrow>
        FindMember ''state'' (toJson r) = Some (JString ''unknown''))"
  by (simp add: memberNames_def HasMember_def FindMember_def members_toJson
      renderStateToString_def STATE_LOADING_def STATE_RENDERING_def)

theorem toJson_members_witness:
  "(let r = \<lparr>state = 7, currentSpp = 4, nextSpp = 8, totalSpp = 64,
             completedScenes = [''a.json''], currentScene = ''b.json'', queuedScenes = []\<rparr>
    in state r \<noteq> STATE_LOADING \<and> state r \<noteq> STATE_RENDERING
       \<and> completedScenes r \<noteq> []
       \<and> memberNames (toJson r) =
           [''state'', ''current_spp'', ''next_spp'', ''total_spp'', ''current_scene'',
            ''completed_scenes'']
       \<and> FindMember ''state'' (toJson r) = Some (JString ''unknown'')
       \<and> FindMember ''completed_scenes'' (toJson r) = Some (JArray [JString ''a.json''])
       \<and> \<not> HasMember ''queued_scenes'' (toJson r))
   \<and> (let r = \<lparr>state = STATE_LOADING, currentSpp = 0, nextSpp = 0, totalSpp = 0,
             completedScenes = [], currentScene = ''a.json'', queuedScenes = [''b.json'', ''c.json'']\<rparr>
    in state r = STATE_LOADING \<and> queuedScenes r \<noteq> []
       \<and> memberNames (toJson r) =
           [''state'', ''current_spp'', ''next_spp'', ''total_spp'', ''current_scene'',
            ''queued_scenes'']
       \<and> FindMember ''state'' (toJson r) = Some (JString ''loading'')
       \<and> FindMember ''queued_scenes'' (toJson r)
           = Some (JArray [JString ''b.json'', JString ''c.json''])
       \<and> \<not> HasMember ''completed_scenes'' (toJson r))
   \<and> (let r = \<lparr>state = STATE_RENDERING, currentSpp = 4, nextSpp = 8, totalSpp = 64,
             completedScenes = [], currentScene = ''a.json'', queuedScenes = []\<rparr>
    in state r = STATE_RENDERING
       \<and> memberNames (toJson r) =
           [''state'', ''current_spp'', ''next_spp'', ''total_spp'', ''current_scene'']
       \<and> FindMember ''state'' (toJson r) = Some (JString ''rendering''))"
  using
    toJson_members [of "\<lparr>state = 7, currentSpp = 4, nextSpp = 8, totalSpp = 64,
      completedScenes = [''a.json''], currentScene = ''b.json'', queuedScenes = []\<rparr>"]
    toJson_members [of "\<lparr>state = STATE_LOADING, currentSpp = 0, nextSpp = 0, totalSpp = 0,
      completedScenes = [], currentScene = ''a.json'', queuedScenes = [''b.json'', ''c.json'']\<rparr>"]
    toJson_members [of "\<lparr>state = STATE_RENDERING, currentSpp = 4, nextSpp = 8, totalSpp = 64,
      completedScenes = [], currentScene = ''a.json'', queuedScenes = []\<rparr>"]
  by (simp add: STATE_LOADING_def STATE_RENDERING_def)

section \<open>Properties of frameBuffer\<close>

lemma fillRow_inv:
  assumes "unat (fst res) * unat (snd res) < 2 ^ 32"
    and "res = resolution cam sc"
    and "y < snd res"
    and "x \<le> fst res"
    and "length ldr = unat (fst res) * unat (snd res)"
    and "\<forall>i < unat x + unat y * unat (fst res). ldr ! i = Some (pixelAt cam sc i)"
  shows "\<exists>ldr'. fillRow cam sc res y x ldr = Inr ldr' \<and> length ldr' = length ldr
           \<and> (\<forall>i < unat (fst res) + unat y * unat (fst res). ldr' ! i = Some (pixelAt cam sc i))"
  using assms
proof (induction cam sc res y x ldr rule: fillRow.induct)
  case (1 cam sc res y x ldr)
  let ?W = "unat (fst res)"
  let ?H = "unat (snd res)"
  show ?case
  proof (cases "x < fst res")
    case False
    with "1.prems"(4) have "x = fst res"
      by simp
    with "1.prems"(6) False show ?thesis
      by (subst fillRow.simps) simp
  next
    case True
    then have ux: "unat x < ?W"
      by (simp add: word_less_nat_alt)
    from "1.prems"(3) have "Suc (unat y) \<le> ?H"
      by (simp add: word_less_nat_alt)
    then have "Suc (unat y) * ?W \<le> ?H * ?W"
      by (rule mult_le_mono1)
    then have row: "?W + unat y * ?W \<le> ?W * ?H"
      by (simp add: mult.commute)
    with ux have k: "unat x + unat y * ?W < ?W * ?H"
      by linarith
    have "unat y * ?W < 2 ^ 32"
      using row "1.prems"(1) by linarith
    then have "unat y * ?W < 2 ^ LENGTH(32)"
      by simp
    then have um: "unat (y * fst res) = unat y * ?W"
      by (rule unat_mult_lem [THEN iffD1])
    have "unat x + unat (y * fst res) < 2 ^ LENGTH(32)"
      using um k "1.prems"(1) by simp
    then have "unat (x + y * fst res) = unat x + unat (y * fst res)"
      by (rule unat_add_lem [THEN iffD1])
    with um have idx: "unat (x + y * fst res) = unat x + unat y * ?W"
      by simp
    have inb: "unat (x + y * fst res) < length ldr"
      using idx k "1.prems"(5) by simp
    have sx: "unat (x + 1) = Suc (unat x)"
      using True by (rule unat_succ_less)
    have le': "x + 1 \<le> fst res"
      using True by (rule inc_le)
    let ?ldr = "ldr[unat (x + y * fst res) := Some (ldrPixel cam sc x y)]"
    have here: "pixelAt cam sc (unat x + unat y * ?W) = ldrPixel cam sc x y"
      using ux "1.prems"(2) by (simp add: pixelAt_def)
    have inv': "\<forall>i < unat (x + 1) + unat y * ?W. ?ldr ! i = Some (pixelAt cam sc i)"
    proof (intro allI impI)
      fix i
      assume "i < unat (x + 1) + unat y * ?W"
      then have "i < unat x + unat y * ?W \<or> i = unat x + unat y * ?W"
        using sx by linarith
      then show "?ldr ! i = Some (pixelAt cam sc i)"
      proof
        assume "i < unat x + unat y * ?W"
        then show ?thesis
          using "1.prems"(6) idx by simp
      next
        assume "i = unat x + unat y * ?W"
        then show ?thesis
          using idx inb here by simp
      qed
    qed
    have "\<exists>ldr'. fillRow cam sc res y (x + 1) ?ldr = Inr ldr' \<and> length ldr' = length ?ldr
           \<and> (\<forall>i < ?W + unat y * ?W. ldr' ! i = Some (pixelAt cam sc i))"
      using "1.IH" [OF True refl inb "1.prems"(1) "1.prems"(2) "1.prems"(3) le' _ inv']
        "1.prems"(5) by simp
    then show ?thesis
      using True inb by (subst fillRow.simps) (simp add: Let_def)
  qed
qed


lemma fillRows_inv:
  assumes "unat (fst res) * unat (snd res) < 2 ^ 32"
    and "res = resolution cam sc"
    and "y \<le> snd res"
    and "length ldr = unat (fst res) * unat (snd res)"
    and "\<forall>i < unat y * unat (fst res). ldr ! i = Some (pixelAt cam sc i)"
  shows "\<exists>ldr'. fillRows cam sc res y ldr = Inr ldr'
           \<and> length ldr' = unat (fst res) * unat (snd res)
           \<and> (\<forall>i < unat (fst res) * unat (snd res). ldr' ! i = Some (pixelAt cam sc i))"
  using assms
proof (induction cam sc res y ldr rule: fillRows.induct)
  case (1 cam sc res y ldr)
  let ?W = "unat (fst res)"
  let ?H = "unat (snd res)"
  show ?case
  proof (cases "y < snd res")
    case False
    with "1.prems"(3) have "y = snd res"
      by simp
    with "1.prems"(4,5) False show ?thesis
      by (subst fillRows.simps) (simp add: mult.commute)
  next
    case True
    have start: "\<forall>i < unat (0 :: uint32) + unat y * ?W. ldr ! i = Some (pixelAt cam sc i)"
      using "1.prems"(5) by simp
    obtain row where row: "fillRow cam sc res y 0 ldr = Inr row"
      and len: "length row = length ldr"
      and inv: "\<forall>i < ?W + unat y * ?W. row ! i = Some (pixelAt cam sc i)"
      using fillRow_inv [OF "1.prems"(1) "1.prems"(2) True _ "1.prems"(4) start]
      by auto
    have sy: "unat (y + 1) = Suc (unat y)"
      using True by (rule unat_succ_less)
    have le': "y + 1 \<le> snd res"
      using True by (rule inc_le)
    have inv': "\<forall>i < unat (y + 1) * ?W. row ! i = Some (pixelAt cam sc i)"
      using inv sy by simp
    have len': "length row = ?W * ?H"
      using len "1.prems"(4) by simp
    have "\<exists>ldr'. fillRows cam sc res (y + 1) row = Inr ldr' \<and> length ldr' = ?W * ?H
           \<and> (\<forall>i < ?W * ?H. ldr' ! i = Some (pixelAt cam sc i))"
      by (rule "1.IH" [OF True row "1.prems"(1) "1.prems"(2) le' len' inv'])
    then show ?thesis
      using True row by (subst fillRows.simps) simp
  qed
qed

lemma frameBuffer_null:
  "scene r = None \<or> flattenedScene r = None \<Longrightarrow> frameBuffer cam r resolution' = Inr (None, resolution')"
  by (auto simp: frameBuffer_def split: option.splits)

lemma frameBuffer_fill:
  assumes "scene r = Some sc" and "flattenedScene r = Some fl"
    and "unat (fst (resolution cam sc)) * unat (snd (resolution cam sc)) < 2 ^ 32"
  shows "\<exists>ldr. frameBuffer cam r resolution' = Inr (Some ldr, Vec2i_of (resolution cam sc))
           \<and> length ldr = unat (fst (resolution cam sc)) * unat (snd (resolution cam sc))
           \<and> (\<forall>i < length ldr. ldr ! i = Some (pixelAt cam sc i))"
proof -
  let ?res = "resolution cam sc"
  let ?N = "unat (fst ?res) * unat (snd ?res)"
  have "?N < 2 ^ LENGTH(32)"
    using assms(3) by simp
  then have "unat (fst ?res * snd ?res) = ?N"
    by (rule unat_mult_lem [THEN iffD1])
  then have len: "length (replicate (unat (product ?res)) (None :: Vec3c option)) = ?N"
    by (simp add: product_def)
  have "\<exists>ldr'. fillRows cam sc ?res 0 (replicate (unat (product ?res)) None) = Inr ldr'
           \<and> length ldr' = ?N \<and> (\<forall>i < ?N. ldr' ! i = Some (pixelAt cam sc i))"
    by (rule fillRows_inv [OF assms(3) refl _ len]) simp_all
  then show ?thesis
    using assms(1,2) by (auto simp: frameBuffer_def Let_def)
qed

lemma clamp_channel:
  "uint (word_of_int (clamp v 0 255) :: uint8) = max 0 (min 255 v)"
  "uint (word_of_int (clamp v 0 255) :: uint8) \<le> 255"
  by (simp_all add: clamp_def uint_word_of_int min_def max_def)


lemma ldrPixel_channels:
  "case scale255 cam (get cam sc x y) of (a, b, c) \<Rightarrow>
     (case ldrPixel cam sc x y of (p, q, s) \<Rightarrow>
        uint p = max 0 (min 255 a) \<and> uint q = max 0 (min 255 b) \<and> uint s = max 0 (min 255 c))"
  by (simp add: ldrPixel_def Vec3c_of_def clampVec3i_def clamp_channel split: prod.splits)

text \<open>
  Claim C9 (amended). \<^verbatim>\<open>frameBuffer\<close> returns \<^verbatim>\<open>nullptr\<close>, and leaves the reference
  parameter as it was, whenever \<^verbatim>\<open>_scene\<close> or \<^verbatim>\<open>_flattenedScene\<close> is null. Otherwise,
  provided the number of pixels of the camera's resolution is below \<open>2 ^ 32\<close>, it
  returns a buffer of exactly that many pixels, all of them assigned, and sets the
  reference parameter to the resolution; the pixel of column \<open>x\<close> and row \<open>y\<close> stands at
  index \<open>x + y * width\<close>, and each of its three channels is the corresponding component
  of \<^verbatim>\<open>Vec3i(get(x, y)*255.0f)\<close> clamped into \<open>[0, 255]\<close>.
\<close>

theorem frameBuffer_pixels:
  "(scene r = None \<or> flattenedScene r = None \<longrightarrow>
      frameBuffer cam r resolution' = Inr (None, resolution'))
   \<and> (\<forall>sc fl. scene r = Some sc \<and> flattenedScene r = Some fl
          \<and> unat (fst (resolution cam sc)) * unat (snd (resolution cam sc)) < 2 ^ 32 \<longrightarrow>
        (\<exists>ldr. frameBuffer cam r resolution' = Inr (Some ldr, Vec2i_of (resolution cam sc))
           \<and> length ldr = unat (fst (resolution cam sc)) * unat (snd (resolution cam sc))
           \<and> (\<forall>i < length ldr. ldr ! i \<noteq> None)
           \<and> (\<forall>x y. x < fst (resolution cam sc) \<and> y < snd (resolution cam sc) \<longrightarrow>
                 (\<exists>p q s. ldr ! (unat x + unat y * unat (fst (resolution cam sc))) = Some (p, q, s)
                    \<and> (case scale255 cam (get cam sc x y) of (a, b, c) \<Rightarrow>
                          uint p = max 0 (min 255 a) \<and> uint q = max 0 (min 255 b)
                          \<and> uint s = max 0 (min 255 c))
                    \<and> 0 \<le> uint p \<and> uint p \<le> 255 \<and> 0 \<le> uint q \<and> uint q \<le> 255
                    \<and> 0 \<le> uint s \<and> uint s \<le> 255))))"
proof (intro conjI allI impI)
  assume "scene r = None \<or> flattenedScene r = None"
  then show "frameBuffer cam r resolution' = Inr (None, resolution')"
    by (rule frameBuffer_null)
next
  fix sc fl
  let ?W = "unat (fst (resolution cam sc))"
  let ?H = "unat (snd (resolution cam sc))"
  assume h: "scene r = Some sc \<and> flattenedScene r = Some fl \<and> ?W * ?H < 2 ^ 32"
  then obtain ldr where fb: "frameBuffer cam r resolution' = Inr (Some ldr, Vec2i_of (resolution cam sc))"
    and len: "length ldr = ?W * ?H"
    and px: "\<forall>i < length ldr. ldr ! i = Some (pixelAt cam sc i)"
    using frameBuffer_fill [of r sc fl cam resolution'] by auto
  have xy: "\<exists>p q s. ldr ! (unat x + unat y * ?W) = Some (p, q, s)
          \<and> (case scale255 cam (get cam sc x y) of (a, b, c) \<Rightarrow>
                uint p = max 0 (min 255 a) \<and> uint q = max 0 (min 255 b)
                \<and> uint s = max 0 (min 255 c))
          \<and> 0 \<le> uint p \<and> uint p \<le> 255 \<and> 0 \<le> uint q \<and> uint q \<le> 255
          \<and> 0 \<le> uint s \<and> uint s \<le> 255"
    if lt: "x < fst (resolution cam sc) \<and> y < snd (resolution cam sc)" for x y
  proof -
    from lt have ux: "unat x < ?W" and uy: "Suc (unat y) \<le> ?H"
      by (simp_all add: word_less_nat_alt)
    from uy have "Suc (unat y) * ?W \<le> ?H * ?W"
      by (rule mult_le_mono1)
    with ux have "unat x + unat y * ?W < ?W * ?H"
      by (simp add: mult.commute)
    with px len have "ldr ! (unat x + unat y * ?W) = Some (pixelAt cam sc (unat x + unat y * ?W))"
      by simp
    moreover have "pixelAt cam sc (unat x + unat y * ?W) = ldrPixel cam sc x y"
      using ux by (simp add: pixelAt_def)
    ultimately have at: "ldr ! (unat x + unat y * ?W) = Some (ldrPixel cam sc x y)"
      by simp
    obtain p q s where pqs: "ldrPixel cam sc x y = (p, q, s)"
      by (cases "ldrPixel cam sc x y") auto
    have bytes: "uint p \<le> 255" "uint q \<le> 255" "uint s \<le> 255"
      using uint_bounded [of p] uint_bounded [of q] uint_bounded [of s] by simp_all
    show ?thesis
      using at pqs bytes ldrPixel_channels [of cam sc x y] by (auto split: prod.splits)
  qed
  show "\<exists>ldr. frameBuffer cam r resolution' = Inr (Some ldr, Vec2i_of (resolution cam sc))
           \<and> length ldr = ?W * ?H
           \<and> (\<forall>i < length ldr. ldr ! i \<noteq> None)
           \<and> (\<forall>x y. x < fst (resolution cam sc) \<and> y < snd (resolution cam sc) \<longrightarrow>
                 (\<exists>p q s. ldr ! (unat x + unat y * ?W) = Some (p, q, s)
                    \<and> (case scale255 cam (get cam sc x y) of (a, b, c) \<Rightarrow>
                          uint p = max 0 (min 255 a) \<and> uint q = max 0 (min 255 b)
                          \<and> uint s = max 0 (min 255 c))
                    \<and> 0 \<le> uint p \<and> uint p \<le> 255 \<and> 0 \<le> uint q \<and> uint q \<le> 255
                    \<and> 0 \<le> uint s \<and> uint s \<le> 255))"
    using fb len px xy by (intro exI [of _ ldr]) simp
qed

text \<open>
  Claim C9 as stated fails where the pixel count does not fit 32 bits: for a camera of
  65536 by 65536 pixels \<^verbatim>\<open>res.product()\<close> wraps to 0, the array has no element, and the
  first assignment of the loop is past its end.
\<close>

theorem frameBuffer_overflow_counterexample:
  "scene loadedRenderer \<noteq> None \<and> flattenedScene loadedRenderer \<noteq> None
   \<and> frameBuffer hugeCamera loadedRenderer (0, 0) = Inl OutOfBounds"
  by (simp add: loadedRenderer_def hugeCamera_def frameBuffer_def product_def fillRows.simps fillRow.simps)

text \<open>
  The theorem at a renderer whose flattened scene is null, and at a camera of two pixels
  whose values scale to 300 and to -5.
\<close>

theorem frameBuffer_pixels_witness:
  "scene (loadedRenderer\<lparr>flattenedScene := None\<rparr>) = Some ()
   \<and> flattenedScene (loadedRenderer\<lparr>flattenedScene := None\<rparr>) = None
   \<and> frameBuffer exampleCamera (loadedRenderer\<lparr>flattenedScene := None\<rparr>) (640, 480)
       = Inr (None, (640, 480))
   \<and> scene loadedRenderer = Some () \<and> flattenedScene loadedRenderer = Some ()
   \<and> unat (fst (resolution exampleCamera ())) * unat (snd (resolution exampleCamera ())) < 2 ^ 32
   \<and> (\<exists>ldr. frameBuffer exampleCamera loadedRenderer (0, 0) = Inr (Some ldr, (2, 1)) \<and> length ldr = 2
         \<and> (\<exists>p q s. ldr ! 0 = Some (p, q, s) \<and> uint p = 255 \<and> uint q = 255 \<and> uint s = 17)
         \<and> (\<exists>p q s. ldr ! 1 = Some (p, q, s) \<and> uint p = 0 \<and> uint q = 17 \<and> uint s = 17))"
proof -
  have pre: "scene loadedRenderer = Some () \<and> flattenedScene loadedRenderer = Some ()
      \<and> unat (fst (resolution exampleCamera ())) * unat (snd (resolution exampleCamera ())) < 2 ^ 32"
    by (simp add: loadedRenderer_def exampleCamera_def)
  from frameBuffer_pixels [of loadedRenderer exampleCamera "(0, 0)", THEN conjunct2, THEN spec, THEN spec, THEN mp, OF pre]
  obtain ldr where fb: "frameBuffer exampleCamera loadedRenderer (0, 0) = Inr (Some ldr, Vec2i_of (resolution exampleCamera ()))"
    and len: "length ldr = unat (fst (resolution exampleCamera ())) * unat (snd (resolution exampleCamera ()))"
    and nn: "\<forall>i < length ldr. ldr ! i \<noteq> None"
    and px: "\<forall>x y. x < fst (resolution exampleCamera ()) \<and> y < snd (resolution exampleCamera ()) \<longrightarrow>
               (\<exists>p q s. ldr ! (unat x + unat y * unat (fst (resolution exampleCamera ()))) = Some (p, q, s)
                  \<and> (case scale255 exampleCamera (get exampleCamera () x y) of (a, b, c) \<Rightarrow>
                        uint p = max 0 (min 255 a) \<and> uint q = max 0 (min 255 b)
                        \<and> uint s = max 0 (min 255 c))
                  \<and> 0 \<le> uint p \<and> uint p \<le> 255 \<and> 0 \<le> uint q \<and> uint q \<le> 255
                  \<and> 0 \<le> uint s \<and> uint s \<le> 255)"
    by (elim exE conjE) (rule that)
  from px [rule_format, of 0 0] have "\<exists>p q s. ldr ! 0 = Some (p, q, s) \<and> uint p = 255 \<and> uint q = 255 \<and> uint s = 17"
    by (auto simp: exampleCamera_def)
  moreover from px [rule_format, of 1 0] have "\<exists>p q s. ldr ! 1 = Some (p, q, s) \<and> uint p = 0 \<and> uint q = 17 \<and> uint s = 17"
    by (auto simp: exampleCamera_def)
  moreover from fb have "frameBuffer exampleCamera loadedRenderer (0, 0) = Inr (Some ldr, (2, 1))"
    by (simp add: exampleCamera_def Vec2i_of_def)
  moreover from len have "length ldr = 2"
    by (simp add: exampleCamera_def)
  moreover have "frameBuffer exampleCamera (loadedRenderer\<lparr>flattenedScene := None\<rparr>) (640, 480)
      = Inr (None, (640, 480))"
    using frameBuffer_pixels [of "loadedRenderer\<lparr>flattenedScene := None\<rparr>" exampleCamera "(640, 480)"]
    by simp
  moreover have "scene (loadedRenderer\<lparr>flattenedScene := None\<rparr>) = Some ()"
    by (simp add: loadedRenderer_def)
  ultimately show ?thesis
    using pre by simp
qed

section \<open>Properties of renderScene\<close>

text \<open>
  The 32-bit product: exact while the result fits, and negative for the checkpoint
  interval 35791395, whose product with 60 is just past \<open>2 ^ 31\<close>. With that interval a
  pass saves a checkpoint although the timer reads 0.
\<close>

lemma int32_in_range:
  assumes "- (2 ^ 31) \<le> k" and "k < 2 ^ 31"
  shows "int32 k = k"
proof -
  have "int32 k = (k + 2 ^ 31) mod 2 ^ 32 - 2 ^ 31"
    by (simp add: int32_def int_word_sint)
  also have "(k + 2 ^ 31) mod 2 ^ 32 = k + 2 ^ 31"
    using assms by (simp add: mod_pos_pos_trivial)
  finally show ?thesis
    by simp
qed

lemma int32_wraps: "int32 (35791395 * 60) = - 2147483596"
  by (simp add: int32_def)

lemma renderPass_checkpoints_on_overflow:
  "renderPass exampleCore sc m (0, fl, (queuedRenderer ps)\<lparr>checkpointInterval := 35791395\<rparr>)
     = Inr (0, Suc fl,
         (queuedRenderer ps)
           \<lparr>checkpointInterval := 35791395,
            flattenedScene := Some (Suc fl),
            status := (status (queuedRenderer ps))
              \<lparr>state := STATE_RENDERING, currentSpp := int fl, nextSpp := int fl + 1\<rparr>,
            logStream := [Completed (int (Suc fl)) m, SavingCheckpointAfter 0, SavingCheckpointTook 0]\<rparr>)"
  by (simp add: renderPass_def saveCheckpointStep_def andThen_def integratorCall_def
      writeLogLine_def exampleCore_def queuedRenderer_def int32_def Let_def)

lemma queueState_simps [simp]:
  "queueState (writeLogLine l r) = queueState r"
  "queueState (r\<lparr>flattenedScene := f\<rparr>) = queueState r"
  "queueState (r\<lparr>scene := sco\<rparr>) = queueState r"
  "queueState (r\<lparr>checkpointInterval := c\<rparr>) = queueState r"
  by (simp_all add: queueState_def writeLogLine_def)

lemma saveCheckpointStep_queue:
  "saveCheckpointStep core sc (t, fl, r) = Inl (e, r') \<Longrightarrow> queueState r' = queueState r"
  "saveCheckpointStep core sc (t, fl, r) = Inr (t', fl', r') \<Longrightarrow> queueState r' = queueState r"
  by (auto simp: saveCheckpointStep_def andThen_def integratorCall_def Let_def
      split: sum.splits if_splits prod.splits)

lemma renderPass_queue:
  "renderPass core sc m (t, fl, r) = Inl (e, r') \<Longrightarrow> queueState r' = queueState r"
  "renderPass core sc m (t, fl, r) = Inr (t', fl', r') \<Longrightarrow> queueState r' = queueState r"
  by (auto simp: renderPass_def andThen_def integratorCall_def Let_def queueState_def writeLogLine_def
      dest!: saveCheckpointStep_queue
      split: sum.splits if_splits prod.splits)

lemma saveCheckpointStep_exception:
  "throwsOnlyRuntimeError core \<Longrightarrow> saveCheckpointStep core sc s = Inl (e, r') \<Longrightarrow> \<exists>what. e = RuntimeError what"
  by (cases e)
    (auto simp: saveCheckpointStep_def andThen_def integratorCall_def Let_def throwsOnlyRuntimeError_def
      split: sum.splits if_splits prod.splits)

lemma renderPass_exception:
  assumes only: "throwsOnlyRuntimeError core"
    and pass: "renderPass core sc m s = Inl (e, r')"
  shows "\<exists>what. e = RuntimeError what"
proof (cases e)
  case (RuntimeError what)
  then show ?thesis
    by simp
next
  case (OtherException what)
  note core = only [unfolded throwsOnlyRuntimeError_def, rule_format]
  from pass OtherException show ?thesis
    by (auto simp: renderPass_def andThen_def integratorCall_def Let_def core
        dest: saveCheckpointStep_exception [OF only]
        split: sum.splits if_splits prod.splits)
qed

lemma renderLoop_queue:
  fixes core :: "('sc, 'fl) Core"
  assumes "renderLoop core sc m s = Some x"
  shows "queueState (rendererOf x) = queueState (snd (snd s))"
proof (rule renderLoop.raw_induct
    [where P = "\<lambda>core sc m s x. queueState (rendererOf x) = queueState (snd (snd s))", OF _ assms])
  fix loop :: "('sc, 'fl) Core \<Rightarrow> 'sc \<Rightarrow> int \<Rightarrow> ('sc, 'fl) locals
      \<Rightarrow> ((exception \<times> ('sc, 'fl) StandaloneRenderer) + ('sc, 'fl) locals) option"
  fix core :: "('sc, 'fl) Core" and sc m s x
  assume IH: "\<And>core sc m s x. loop core sc m s = Some x
      \<Longrightarrow> queueState (rendererOf x) = queueState (snd (snd s))"
  assume step: "(if integratorDone core (fst (snd s)) then Some (Inr s)
      else case renderPass core sc m s of Inl er \<Rightarrow> Some (Inl er) | Inr s' \<Rightarrow> loop core sc m s') = Some x"
  show "queueState (rendererOf x) = queueState (snd (snd s))"
  proof (cases "integratorDone core (fst (snd s))")
    case True
    with step show ?thesis
      by (auto simp: rendererOf_def split: prod.splits)
  next
    case False
    show ?thesis
    proof (cases "renderPass core sc m s")
      case (Inl er)
      with False step have "x = Inl er"
        by simp
      with Inl show ?thesis
        by (cases s; cases er) (auto simp: rendererOf_def dest: renderPass_queue)
    next
      case (Inr s')
      with False step have "loop core sc m s' = Some x"
        by simp
      then have "queueState (rendererOf x) = queueState (snd (snd s'))"
        by (rule IH)
      with Inr show ?thesis
        by (cases s; cases s') (auto dest: renderPass_queue)
    qed
  qed
qed

lemma renderLoop_exception:
  fixes core :: "('sc, 'fl) Core"
  assumes "renderLoop core sc m s = Some x"
  shows "throwsOnlyRuntimeError core \<longrightarrow> (\<forall>e r'. x = Inl (e, r') \<longrightarrow> (\<exists>what. e = RuntimeError what))"
proof (rule renderLoop.raw_induct
    [where P = "\<lambda>core sc m s x. throwsOnlyRuntimeError core
        \<longrightarrow> (\<forall>e r'. x = Inl (e, r') \<longrightarrow> (\<exists>what. e = RuntimeError what))", OF _ assms])
  fix loop :: "('sc, 'fl) Core \<Rightarrow> 'sc \<Rightarrow> int \<Rightarrow> ('sc, 'fl) locals
      \<Rightarrow> ((exception \<times> ('sc, 'fl) StandaloneRenderer) + ('sc, 'fl) locals) option"
  fix core :: "('sc, 'fl) Core" and sc m s x
  assume IH: "\<And>core sc m s x. loop core sc m s = Some x
      \<Longrightarrow> throwsOnlyRuntimeError core
        \<longrightarrow> (\<forall>e r'. x = Inl (e, r') \<longrightarrow> (\<exists>what. e = RuntimeError what))"
  assume step: "(if integratorDone core (fst (snd s)) then Some (Inr s)
      else case renderPass core sc m s of Inl er \<Rightarrow> Some (Inl er) | Inr s' \<Rightarrow> loop core sc m s') = Some x"
  show "throwsOnlyRuntimeError core
      \<longrightarrow> (\<forall>e r'. x = Inl (e, r') \<longrightarrow> (\<exists>what. e = RuntimeError what))"
  proof (intro impI allI)
    fix e r'
    assume only: "throwsOnlyRuntimeError core" and x: "x = Inl (e, r')"
    show "\<exists>what. e = RuntimeError what"
    proof (cases "integratorDone core (fst (snd s))")
      case True
      with step x show ?thesis
        by simp
    next
      case False
      show ?thesis
      proof (cases "renderPass core sc m s")
        case (Inl er)
        with False step x have "renderPass core sc m s = Inl (e, r')"
          by simp
        with only show ?thesis
          by (rule renderPass_exception)
      next
        case (Inr s')
        with False step have "loop core sc m s' = Some x"
          by simp
        from IH [OF this] only x show ?thesis
          by simp
      qed
    qed
  qed
qed


lemma queueState_status [simp]:
  "queueState (r\<lparr>status := (status r)\<lparr>totalSpp := n\<rparr>\<rparr>) = queueState r"
  "queueState (r\<lparr>status := (status r)\<lparr>completedScenes := cs\<rparr>\<rparr>) = queueState r"
  by (simp_all add: queueState_def)

lemma tryLoad_queue:
  "tryLoad core cur r = Inl (e, r1) \<Longrightarrow> queueState r1 = queueState r"
  "tryLoad core cur r = Inr (sc, r1) \<Longrightarrow> queueState r1 = queueState r"
  by (auto simp: tryLoad_def Let_def split: sum.splits)

lemma tryLoad_exception:
  assumes only: "throwsOnlyRuntimeError core" and "tryLoad core cur r = Inl (e, r1)"
  shows "\<exists>what. e = RuntimeError what"
proof (cases e)
  case (RuntimeError what)
  then show ?thesis
    by simp
next
  case (OtherException what)
  note core = only [unfolded throwsOnlyRuntimeError_def, rule_format]
  from assms(2) OtherException show ?thesis
    by (auto simp: tryLoad_def Let_def core split: sum.splits)
qed

lemma prepareRender_queue:
  "prepareRender core sc r = Inl (e, r1) \<Longrightarrow> queueState r1 = queueState r"
  "prepareRender core sc r = Inr (sc', t, fl, r1) \<Longrightarrow> queueState r1 = queueState r"
  by (auto simp: prepareRender_def Let_def split: sum.splits if_splits prod.splits)

lemma prepareRender_exception:
  assumes only: "throwsOnlyRuntimeError core" and "prepareRender core sc r = Inl (e, r1)"
  shows "\<exists>what. e = RuntimeError what"
proof (cases e)
  case (RuntimeError what)
  then show ?thesis
    by simp
next
  case (OtherException what)
  note core = only [unfolded throwsOnlyRuntimeError_def, rule_format]
  from assms(2) OtherException show ?thesis
    by (auto simp: prepareRender_def Let_def core split: sum.splits if_splits prod.splits)
qed

lemma finishRender_queue:
  "finishRender core cur sc (t, fl, r) = Inl (e, r1) \<Longrightarrow> queueState r1 = queueState r"
  "finishRender core cur sc (t, fl, r) = Inr r1 \<Longrightarrow> queueState r1 = queueState r"
  by (auto simp: finishRender_def andThen_def integratorCall_def Let_def queueState_def
      writeLogLine_def split: sum.splits if_splits prod.splits)

lemma finishRender_exception:
  assumes only: "throwsOnlyRuntimeError core" and "finishRender core cur sc s = Inl (e, r1)"
  shows "\<exists>what. e = RuntimeError what"
proof (cases e)
  case (RuntimeError what)
  then show ?thesis
    by simp
next
  case (OtherException what)
  note core = only [unfolded throwsOnlyRuntimeError_def, rule_format]
  from assms(2) OtherException show ?thesis
    by (auto simp: finishRender_def andThen_def integratorCall_def Let_def core
        split: sum.splits if_splits prod.splits)
qed

lemma tryRender_cases:
  assumes "tryRender core cur sc r = Some x"
  obtains (prepare) er where "prepareRender core sc r = Inl er" and "x = Inl er"
  | (loop) sc' s er where "prepareRender core sc r = Inr (sc', s)"
      and "renderLoop core sc' (spp core sc') s = Some (Inl er)" and "x = Inl er"
  | (finish) sc' s s' where "prepareRender core sc r = Inr (sc', s)"
      and "renderLoop core sc' (spp core sc') s = Some (Inr s')"
      and "x = finishRender core cur sc' s'"
  using assms
  by (auto simp: tryRender_def split: sum.splits prod.splits option.splits)

lemma tryRender_queue:
  assumes "tryRender core cur sc r = Some x"
  shows "queueState (case x of Inl (e, r2) \<Rightarrow> r2 | Inr r2 \<Rightarrow> r2) = queueState r"
  using assms
proof (cases rule: tryRender_cases)
  case (prepare er)
  then show ?thesis
    by (cases er) (auto dest: prepareRender_queue)
next
  case (loop sc' s er)
  from renderLoop_queue [OF loop(2)] loop(1,3) show ?thesis
    by (cases er; cases s) (auto simp: rendererOf_def dest: prepareRender_queue)
next
  case (finish sc' s s')
  from renderLoop_queue [OF finish(2)] finish(1) have "queueState (snd (snd s')) = queueState r"
    by (cases s; cases s') (auto simp: rendererOf_def dest: prepareRender_queue)
  moreover obtain t fl r1 where s': "s' = (t, fl, r1)"
    by (cases s') auto
  ultimately show ?thesis
    using finish(3)
    by (cases "finishRender core cur sc' (t, fl, r1)")
      (auto dest: finishRender_queue split: prod.splits)
qed

lemma tryRender_exception:
  assumes only: "throwsOnlyRuntimeError core" and "tryRender core cur sc r = Some (Inl (e, r2))"
  shows "\<exists>what. e = RuntimeError what"
  using assms(2)
proof (cases rule: tryRender_cases)
  case (prepare er)
  with only show ?thesis
    by (auto dest: prepareRender_exception)
next
  case (loop sc' s er)
  from renderLoop_exception [OF loop(2)] only loop(3) show ?thesis
    by auto
next
  case (finish sc' s s')
  from finish(3) have "finishRender core cur sc' s' = Inl (e, r2)"
    by simp
  with only show ?thesis
    by (rule finishRender_exception)
qed

lemma tryRender_None:
  "tryRender core cur sc r = None \<Longrightarrow> \<exists>sc m s. renderLoop core sc m s = None"
  by (auto simp: tryRender_def split: sum.splits prod.splits option.splits) blast


lemma renderLoop_terminates:
  fixes core :: "('sc, 'fl) Core" and remaining :: "'fl \<Rightarrow> nat"
  assumes progress: "\<And>t fl r t' fl' r'. \<not> integratorDone core fl
      \<Longrightarrow> renderPass core sc m (t, fl, r) = Inr (t', fl', r') \<Longrightarrow> remaining fl' < remaining fl"
  shows "renderLoop core sc m (t, fl, r) \<noteq> None"
proof (induction "remaining fl" arbitrary: t fl r rule: less_induct)
  case less
  show ?case
  proof (cases "integratorDone core fl")
    case True
    then show ?thesis
      by (subst renderLoop.simps) simp
  next
    case False
    show ?thesis
    proof (cases "renderPass core sc m (t, fl, r)")
      case (Inl er)
      with False show ?thesis
        by (subst renderLoop.simps) simp
    next
      case (Inr s')
      obtain t' fl' r' where s': "s' = (t', fl', r')"
        by (cases s') auto
      from progress [OF False] Inr s' have "remaining fl' < remaining fl"
        by simp
      then have "renderLoop core sc m (t', fl', r') \<noteq> None"
        by (rule less)
      with False Inr s' show ?thesis
        by (subst renderLoop.simps) simp
    qed
  qed
qed

lemma renderScene_returns:
  fixes core :: "('sc, 'fl) Core"
  assumes "integratorProgresses core"
  shows "renderScene core r \<noteq> None"
proof -
  from assms obtain remaining :: "'fl \<Rightarrow> nat"
    where progress: "\<And>sc m t fl r t' fl' r'. \<not> integratorDone core fl
      \<Longrightarrow> renderPass core sc m (t, fl, r) = Inr (t', fl', r') \<Longrightarrow> remaining fl' < remaining fl"
    unfolding integratorProgresses_def by blast
  have loop: "renderLoop core sc m s \<noteq> None" for sc m s
    using renderLoop_terminates [of core sc m remaining] progress by (cases s) auto
  have render: "tryRender core cur sc r1 \<noteq> None" for cur sc r1
  proof (cases "prepareRender core sc r1")
    case (Inl er)
    then show ?thesis
      by (simp add: tryRender_def)
  next
    case (Inr p)
    obtain sc' s where "p = (sc', s)"
      by (cases p) auto
    with Inr loop [of sc' "spp core sc'" s] show ?thesis
      by (auto simp: tryRender_def split: sum.splits)
  qed
  show ?thesis
    by (simp add: renderScene_def Let_def render
        split: sum.splits prod.splits option.splits exception.splits)
qed


text \<open>
  The two ways a scene fails to load, at the scene loader itself: \<^verbatim>\<open>Scene::load\<close> throws
  a \<^verbatim>\<open>std::runtime_error\<close>, or it returns a scene whose \<^verbatim>\<open>loadResources\<close> throws one.
  Either way the call returns \<^verbatim>\<open>true\<close> and has written the two lines to the log.
\<close>

lemma renderScene_loader_error:
  assumes "queuedScenes (status r) \<noteq> []"
    and "Scene_load core (hd (queuedScenes (status r))) = Inl (RuntimeError what)
       \<or> (\<exists>sc. Scene_load core (hd (queuedScenes (status r))) = Inr sc
             \<and> loadResources core sc = Inl (RuntimeError what))"
  shows "\<exists>r'. renderScene core r = Some (Returned True, r')
     \<and> logStream r' = logStream r @ [LoadingScene (hd (queuedScenes (status r))),
                                      SceneLoaderError (hd (queuedScenes (status r))) what]
     \<and> queuedScenes (status r') = tl (queuedScenes (status r))
     \<and> scene r' = None"
  using assms
  by (auto simp: renderScene_def Let_def tryLoad_def nextScene_def writeLogLine_def)

text \<open>An exception of the scene loader that is not a \<^verbatim>\<open>std::runtime_error\<close> leaves the call.\<close>

lemma renderScene_propagates:
  assumes "queuedScenes (status r) \<noteq> []"
    and "Scene_load core (hd (queuedScenes (status r))) = Inl (OtherException what)"
  shows "renderScene core r
    = Some (Propagated (OtherException what),
        writeLogLine (LoadingScene (hd (queuedScenes (status r)))) (nextScene r))"
  using assms by (simp add: renderScene_def Let_def tryLoad_def nextScene_def writeLogLine_def)

text \<open>
  What a call does when it ends, by the path it takes through the two \<^verbatim>\<open>try\<close> blocks.
\<close>

lemma renderScene_ends:
  "(queuedScenes (status r) = [] \<longrightarrow> renderScene core r = Some (Returned False, r))
   \<and> (queuedScenes (status r) \<noteq> [] \<longrightarrow>
        (case renderScene core r of
           None \<Rightarrow> \<exists>sc m s. renderLoop core sc m s = None
         | Some (out, r') \<Rightarrow>
             out \<noteq> Returned False
             \<and> queuedScenes (status r') = tl (queuedScenes (status r))
             \<and> currentScene (status r') = hd (queuedScenes (status r))
             \<and> (\<forall>what. out \<noteq> Propagated (RuntimeError what))
             \<and> (throwsOnlyRuntimeError core \<longrightarrow> out = Returned True)
             \<and> (out = Returned True \<longrightarrow>
                  scene r' = None
                  \<and> (flattenedScene r' = None \<or> flattenedScene r' = flattenedScene r))))
   \<and> (\<forall>what r1.
         queuedScenes (status r) \<noteq> []
         \<and> tryLoad core (hd (queuedScenes (status r)))
              (writeLogLine (LoadingScene (hd (queuedScenes (status r)))) (nextScene r))
            = Inl (RuntimeError what, r1) \<longrightarrow>
         (\<exists>r'. renderScene core r = Some (Returned True, r')
            \<and> logStream r' = logStream r1 @ [SceneLoaderError (hd (queuedScenes (status r))) what]
            \<and> scene r' = None))
   \<and> (\<forall>what sc r1 r2.
         queuedScenes (status r) \<noteq> []
         \<and> tryLoad core (hd (queuedScenes (status r)))
              (writeLogLine (LoadingScene (hd (queuedScenes (status r)))) (nextScene r))
            = Inr (sc, r1)
         \<and> tryRender core (hd (queuedScenes (status r))) sc
              (r1\<lparr>status := (status r1)\<lparr>totalSpp := spp core sc\<rparr>\<rparr>)
            = Some (Inl (RuntimeError what, r2)) \<longrightarrow>
         (\<exists>r'. renderScene core r = Some (Returned True, r')
            \<and> logStream r' = logStream r2 @ [RendererError (hd (queuedScenes (status r))) what]
            \<and> scene r' = None \<and> flattenedScene r' = None))"
proof (intro conjI impI allI)
  assume "queuedScenes (status r) = []"
  then show "renderScene core r = Some (Returned False, r)"
    by (simp add: renderScene_def)
next
  fix what r1
  assume "queuedScenes (status r) \<noteq> []
     \<and> tryLoad core (hd (queuedScenes (status r)))
          (writeLogLine (LoadingScene (hd (queuedScenes (status r)))) (nextScene r))
        = Inl (RuntimeError what, r1)"
  then show "\<exists>r'. renderScene core r = Some (Returned True, r')
      \<and> logStream r' = logStream r1 @ [SceneLoaderError (hd (queuedScenes (status r))) what]
      \<and> scene r' = None"
    by (simp add: renderScene_def Let_def nextScene_def writeLogLine_def)
next
  fix what sc r1 r2
  assume "queuedScenes (status r) \<noteq> []
     \<and> tryLoad core (hd (queuedScenes (status r)))
          (writeLogLine (LoadingScene (hd (queuedScenes (status r)))) (nextScene r))
        = Inr (sc, r1)
     \<and> tryRender core (hd (queuedScenes (status r))) sc
          (r1\<lparr>status := (status r1)\<lparr>totalSpp := spp core sc\<rparr>\<rparr>)
        = Some (Inl (RuntimeError what, r2))"
  then show "\<exists>r'. renderScene core r = Some (Returned True, r')
      \<and> logStream r' = logStream r2 @ [RendererError (hd (queuedScenes (status r))) what]
      \<and> scene r' = None \<and> flattenedScene r' = None"
    by (simp add: renderScene_def Let_def nextScene_def writeLogLine_def)
next
  assume ne: "queuedScenes (status r) \<noteq> []"
  let ?cur = "hd (queuedScenes (status r))"
  let ?start = "writeLogLine (LoadingScene ?cur) (nextScene r)"
  have q0: "queueState ?start = (tl (queuedScenes (status r)), ?cur)"
    by (simp add: queueState_def nextScene_def writeLogLine_def)
  have cur: "currentScene (status (nextScene r)) = ?cur"
    by (simp add: nextScene_def)
  show "case renderScene core r of
           None \<Rightarrow> \<exists>sc m s. renderLoop core sc m s = None
         | Some (out, r') \<Rightarrow>
             out \<noteq> Returned False
             \<and> queuedScenes (status r') = tl (queuedScenes (status r))
             \<and> currentScene (status r') = hd (queuedScenes (status r))
             \<and> (\<forall>what. out \<noteq> Propagated (RuntimeError what))
             \<and> (throwsOnlyRuntimeError core \<longrightarrow> out = Returned True)
             \<and> (out = Returned True \<longrightarrow>
                  scene r' = None
                  \<and> (flattenedScene r' = None \<or> flattenedScene r' = flattenedScene r))"
  proof (cases "tryLoad core ?cur ?start")
    case (Inl er)
    obtain e r1 where er: "er = (e, r1)"
      by (cases er) auto
    from Inl er have q1: "queueState r1 = queueState ?start"
      by (auto dest: tryLoad_queue)
    have fl1: "flattenedScene r1 = flattenedScene r"
      using Inl er by (auto simp: tryLoad_def Let_def nextScene_def writeLogLine_def split: sum.splits)
    show ?thesis
    proof (cases e)
      case (RuntimeError what)
      with Inl er ne q1 q0 fl1 show ?thesis
        by (simp add: renderScene_def Let_def cur queueState_def writeLogLine_def)
    next
      case (OtherException what)
      with Inl er ne q1 q0 show ?thesis
        by (auto simp: renderScene_def Let_def cur queueState_def dest: tryLoad_exception)
    qed
  next
    case (Inr scr)
    obtain sc r1 where scr: "scr = (sc, r1)"
      by (cases scr) auto
    let ?loaded = "r1\<lparr>status := (status r1)\<lparr>totalSpp := spp core sc\<rparr>\<rparr>"
    from Inr scr have q1: "queueState ?loaded = queueState ?start"
      by (auto dest: tryLoad_queue)
    show ?thesis
    proof (cases "tryRender core ?cur sc ?loaded")
      case None
      then have "\<exists>sc m s. renderLoop core sc m s = None"
        by (rule tryRender_None)
      with None Inr scr ne show ?thesis
        by (simp add: renderScene_def Let_def cur)
    next
      case (Some x)
      from tryRender_queue [OF Some] q1 q0
      have q2: "queueState (case x of Inl (e, r2) \<Rightarrow> r2 | Inr r2 \<Rightarrow> r2) = (tl (queuedScenes (status r)), ?cur)"
        by simp
      show ?thesis
      proof (cases x)
        case (Inl er)
        obtain e r2 where er: "er = (e, r2)"
          by (cases er) auto
        show ?thesis
        proof (cases e)
          case (RuntimeError what)
          with Inl er Some Inr scr ne q2 show ?thesis
            by (simp add: renderScene_def Let_def cur queueState_def writeLogLine_def)
        next
          case (OtherException what)
          with Inl er Some Inr scr ne q2 show ?thesis
            by (auto simp: renderScene_def Let_def cur queueState_def dest: tryRender_exception)
        qed
      next
        case (Inr r2)
        with Some \<open>tryLoad core ?cur ?start = Inr scr\<close> scr ne q2 show ?thesis
          by (simp add: renderScene_def Let_def cur queueState_def)
      qed
    qed
  qed
qed

text \<open>
  Claim C8 (amended). A call of \<^verbatim>\<open>renderScene\<close> on an empty queue returns \<^verbatim>\<open>false\<close> and changes
  nothing. On a queue that is not empty the call either never leaves the render loop
  (the integrator never reports that it is done) or ends; when it ends, it has not
  returned \<^verbatim>\<open>false\<close>, it has removed exactly the front of the queue and made it the
  current scene, no \<^verbatim>\<open>std::runtime_error\<close> has left it, it has returned \<^verbatim>\<open>true\<close>
  whenever the core library throws nothing but \<^verbatim>\<open>std::runtime_error\<close>, and after
  returning \<^verbatim>\<open>true\<close> the scene pointer is null and the flattened scene pointer is null
  or untouched. A \<^verbatim>\<open>std::runtime_error\<close> thrown while loading makes the call return
  \<^verbatim>\<open>true\<close> with the loader's error line as the last line of the log and the scene reset;
  one thrown while rendering makes it return \<^verbatim>\<open>true\<close> with the renderer's error line
  as the last line of the log and both pointers reset. With a core library that throws
  nothing but \<^verbatim>\<open>std::runtime_error\<close> and an integrator that finishes, the call on a
  queue that is not empty does end and returns \<^verbatim>\<open>true\<close>.
\<close>

theorem renderScene_queue:
  "(queuedScenes (status r) = [] \<longrightarrow> renderScene core r = Some (Returned False, r))
   \<and> (queuedScenes (status r) \<noteq> [] \<longrightarrow>
        (case renderScene core r of
           None \<Rightarrow> \<exists>sc m s. renderLoop core sc m s = None
         | Some (out, r') \<Rightarrow>
             out \<noteq> Returned False
             \<and> queuedScenes (status r') = tl (queuedScenes (status r))
             \<and> currentScene (status r') = hd (queuedScenes (status r))
             \<and> (\<forall>what. out \<noteq> Propagated (RuntimeError what))
             \<and> (throwsOnlyRuntimeError core \<longrightarrow> out = Returned True)
             \<and> (out = Returned True \<longrightarrow>
                  scene r' = None
                  \<and> (flattenedScene r' = None \<or> flattenedScene r' = flattenedScene r))))
   \<and> (\<forall>what r1.
         queuedScenes (status r) \<noteq> []
         \<and> tryLoad core (hd (queuedScenes (status r)))
              (writeLogLine (LoadingScene (hd (queuedScenes (status r)))) (nextScene r))
            = Inl (RuntimeError what, r1) \<longrightarrow>
         (\<exists>r'. renderScene core r = Some (Returned True, r')
            \<and> logStream r' = logStream r1 @ [SceneLoaderError (hd (queuedScenes (status r))) what]
            \<and> scene r' = None))
   \<and> (\<forall>what sc r1 r2.
         queuedScenes (status r) \<noteq> []
         \<and> tryLoad core (hd (queuedScenes (status r)))
              (writeLogLine (LoadingScene (hd (queuedScenes (status r)))) (nextScene r))
            = Inr (sc, r1)
         \<and> tryRender core (hd (queuedScenes (status r))) sc
              (r1\<lparr>status := (status r1)\<lparr>totalSpp := spp core sc\<rparr>\<rparr>)
            = Some (Inl (RuntimeError what, r2)) \<longrightarrow>
         (\<exists>r'. renderScene core r = Some (Returned True, r')
            \<and> logStream r' = logStream r2 @ [RendererError (hd (queuedScenes (status r))) what]
            \<and> scene r' = None \<and> flattenedScene r' = None))
   \<and> (queuedScenes (status r) \<noteq> [] \<and> throwsOnlyRuntimeError core \<and> integratorProgresses core \<longrightarrow>
        (\<exists>r'. renderScene core r = Some (Returned True, r')))"
proof -
  have returns: "\<exists>r'. renderScene core r = Some (Returned True, r')"
    if h: "queuedScenes (status r) \<noteq> [] \<and> throwsOnlyRuntimeError core \<and> integratorProgresses core"
  proof -
    from h have "renderScene core r \<noteq> None"
      by (simp add: renderScene_returns)
    then obtain out r' where run: "renderScene core r = Some (out, r')"
      by auto
    from renderScene_ends [of r core, THEN conjunct2, THEN conjunct1] h run
    have "out = Returned True"
      by simp
    with run show ?thesis
      by simp
  qed
  from renderScene_ends [of r core] returns show ?thesis
    by blast
qed

text \<open>With the integrator that is never done, every pass completes and the loop does not end.\<close>

lemma endlessCore_pass:
  "\<exists>s'. renderPass endlessCore sc m s = Inr s'"
  by (cases s)
    (simp add: renderPass_def saveCheckpointStep_def andThen_def integratorCall_def
      endlessCore_def exampleCore_def Let_def)

lemma endlessCore_fields:
  "Scene_load endlessCore = Scene_load exampleCore"
  "loadResources endlessCore = loadResources exampleCore"
  "spp endlessCore = spp exampleCore"
  "checkpointIntervalOf endlessCore = checkpointIntervalOf exampleCore"
  "enableResumeRender endlessCore = enableResumeRender exampleCore"
  "DirectoryChange endlessCore = DirectoryChange exampleCore"
  "makeTraceable endlessCore = makeTraceable exampleCore"
  by (simp_all add: endlessCore_def)

lemma endlessCore_loop: "renderLoop endlessCore sc m s = None"
proof (rule ccontr)
  assume "renderLoop endlessCore sc m s \<noteq> None"
  then obtain x where run: "renderLoop endlessCore sc m s = Some x"
    by auto
  have "endlessCore = endlessCore \<longrightarrow> False"
  proof (rule renderLoop.raw_induct
      [where P = "\<lambda>core sc m s x. core = endlessCore \<longrightarrow> False", OF _ run])
    fix loop :: "(Path, nat) Core \<Rightarrow> Path \<Rightarrow> int \<Rightarrow> (Path, nat) locals
        \<Rightarrow> ((exception \<times> (Path, nat) StandaloneRenderer) + (Path, nat) locals) option"
    fix core :: "(Path, nat) Core" and sc m s x
    assume IH: "\<And>core sc m s x. loop core sc m s = Some x \<Longrightarrow> core = endlessCore \<longrightarrow> False"
    assume step: "(if integratorDone core (fst (snd s)) then Some (Inr s)
        else case renderPass core sc m s of Inl er \<Rightarrow> Some (Inl er) | Inr s' \<Rightarrow> loop core sc m s') = Some x"
    show "core = endlessCore \<longrightarrow> False"
    proof
      assume c: "core = endlessCore"
      obtain s' where pass: "renderPass endlessCore sc m s = Inr s'"
        using endlessCore_pass by blast
      have "\<not> integratorDone endlessCore (fst (snd s))"
        by (simp add: endlessCore_def)
      with step c pass have "loop endlessCore sc m s' = Some x"
        by simp
      from IH [OF this] show False
        by simp
    qed
  qed
  then show False
    by simp
qed

text \<open>
  Claim C8 as stated fails in two ways, both by the design of the function. Only
  \<^verbatim>\<open>std::runtime_error\<close> is caught: when the scene loader throws another exception, the
  call pops the front scene and the exception leaves it, so nothing is returned. And
  the loop runs until the integrator reports that it is done: with an integrator that
  never does, the call does not end.
\<close>

theorem renderScene_not_true_counterexample:
  "queuedScenes (status (queuedRenderer [''a.json''])) \<noteq> []
   \<and> (\<exists>r'. renderScene throwingCore (queuedRenderer [''a.json''])
          = Some (Propagated (OtherException ''std::bad_alloc''), r')
        \<and> queuedScenes (status r') = [])
   \<and> renderScene endlessCore (queuedRenderer [''a.json'']) = None"
proof -
  have ne: "queuedScenes (status (queuedRenderer [''a.json''])) \<noteq> []"
    by (simp add: queuedRenderer_def)
  have "Scene_load throwingCore (hd (queuedScenes (status (queuedRenderer [''a.json'']))))
      = Inl (OtherException ''std::bad_alloc'')"
    by (simp add: throwingCore_def)
  from renderScene_propagates [OF ne this]
  have thrown: "\<exists>r'. renderScene throwingCore (queuedRenderer [''a.json''])
          = Some (Propagated (OtherException ''std::bad_alloc''), r')
        \<and> queuedScenes (status r') = []"
    by (simp add: nextScene_def writeLogLine_def queuedRenderer_def)
  have endless: "renderScene endlessCore (queuedRenderer [''a.json'']) = None"
    by (simp add: renderScene_def tryLoad_def tryRender_def prepareRender_def endlessCore_loop
        nextScene_def writeLogLine_def queuedRenderer_def endlessCore_fields exampleCore_def Let_def
        OPT_CHECKPOINTS_def OPT_RESTART_def OPT_OUTPUT_DIRECTORY_def)
  from ne thrown endless show ?thesis
    by blast
qed

text \<open>
  The theorem at a core library that refuses to load \<^verbatim>\<open>bad.json\<close>, cannot make
  \<^verbatim>\<open>empty.json\<close> traceable, and renders every other scene in two passes.
\<close>

theorem renderScene_queue_witness:
  "throwsOnlyRuntimeError exampleCore \<and> integratorProgresses exampleCore
   \<and> renderScene exampleCore (queuedRenderer []) = Some (Returned False, queuedRenderer [])
   \<and> (\<exists>r'. renderScene exampleCore (queuedRenderer [''a.json'', ''b.json'']) = Some (Returned True, r')
         \<and> queuedScenes (status r') = [''b.json''] \<and> currentScene (status r') = ''a.json''
         \<and> scene r' = None \<and> flattenedScene r' = None)
   \<and> (\<exists>r'. renderScene exampleCore (queuedRenderer [''bad.json'', ''a.json'']) = Some (Returned True, r')
         \<and> logStream r' = [LoadingScene ''bad.json'', SceneLoaderError ''bad.json'' ''parse error'']
         \<and> scene r' = None)
   \<and> (\<exists>r'. renderScene exampleCore (queuedRenderer [''empty.json'']) = Some (Returned True, r')
         \<and> logStream r' = [LoadingScene ''empty.json'', RendererError ''empty.json'' ''no camera'']
         \<and> scene r' = None \<and> flattenedScene r' = None)"
proof -
  note defs = queuedRenderer_def nextScene_def writeLogLine_def tryLoad_def tryRender_def
    prepareRender_def finishRender_def renderPass_def andThen_def integratorCall_def
    saveCheckpointStep_def exampleCore_def Let_def
    OPT_CHECKPOINTS_def OPT_RESTART_def OPT_OUTPUT_DIRECTORY_def
  have only: "throwsOnlyRuntimeError exampleCore"
    by (simp add: throwsOnlyRuntimeError_def exampleCore_def)
  have progress: "integratorProgresses exampleCore"
    unfolding integratorProgresses_def
    by (rule exI [of _ "\<lambda>fl. 2 - fl"]) (auto simp: defs)
  have idle: "renderScene exampleCore (queuedRenderer []) = Some (Returned False, queuedRenderer [])"
    using renderScene_queue [of "queuedRenderer []" exampleCore]
    by (simp add: queuedRenderer_def)
  have good: "\<exists>r'. renderScene exampleCore (queuedRenderer [''a.json'', ''b.json'']) = Some (Returned True, r')
      \<and> queuedScenes (status r') = [''b.json''] \<and> currentScene (status r') = ''a.json''
      \<and> scene r' = None \<and> flattenedScene r' = None"
  proof -
    let ?r = "queuedRenderer [''a.json'', ''b.json'']"
    have ne: "queuedScenes (status ?r) \<noteq> []"
      by (simp add: queuedRenderer_def)
    from renderScene_queue [of ?r exampleCore, THEN conjunct2, THEN conjunct2, THEN conjunct2,
        THEN conjunct2, rule_format] ne only progress
    obtain r' where run: "renderScene exampleCore ?r = Some (Returned True, r')"
      by blast
    from renderScene_queue [of ?r exampleCore, THEN conjunct2, THEN conjunct1, rule_format, OF ne] run
    have "queuedScenes (status r') = tl (queuedScenes (status ?r))
        \<and> currentScene (status r') = hd (queuedScenes (status ?r))
        \<and> scene r' = None \<and> (flattenedScene r' = None \<or> flattenedScene r' = flattenedScene ?r)"
      by simp
    with run show ?thesis
      by (auto simp: queuedRenderer_def)
  qed
  have bad: "\<exists>r'. renderScene exampleCore (queuedRenderer [''bad.json'', ''a.json'']) = Some (Returned True, r')
      \<and> logStream r' = [LoadingScene ''bad.json'', SceneLoaderError ''bad.json'' ''parse error'']
      \<and> scene r' = None"
  proof -
    let ?r = "queuedRenderer [''bad.json'', ''a.json'']"
    let ?start = "writeLogLine (LoadingScene ''bad.json'') (nextScene ?r)"
    have "queuedScenes (status ?r) \<noteq> []
        \<and> tryLoad exampleCore (hd (queuedScenes (status ?r)))
             (writeLogLine (LoadingScene (hd (queuedScenes (status ?r)))) (nextScene ?r))
           = Inl (RuntimeError ''parse error'', ?start)"
      by (simp add: defs)
    from renderScene_queue [of ?r exampleCore, THEN conjunct2, THEN conjunct2, THEN conjunct1,
        rule_format, OF this]
    show ?thesis
      by (simp add: defs)
  qed
  have empty: "\<exists>r'. renderScene exampleCore (queuedRenderer [''empty.json'']) = Some (Returned True, r')
      \<and> logStream r' = [LoadingScene ''empty.json'', RendererError ''empty.json'' ''no camera'']
      \<and> scene r' = None \<and> flattenedScene r' = None"
  proof -
    let ?r = "queuedRenderer [''empty.json'']"
    let ?loaded = "(writeLogLine (LoadingScene ''empty.json'') (nextScene ?r))\<lparr>scene := Some ''empty.json''\<rparr>"
    let ?failed = "?loaded\<lparr>status := (status ?loaded)\<lparr>totalSpp := 2\<rparr>\<rparr>"
    have "queuedScenes (status ?r) \<noteq> []
        \<and> tryLoad exampleCore (hd (queuedScenes (status ?r)))
             (writeLogLine (LoadingScene (hd (queuedScenes (status ?r)))) (nextScene ?r))
           = Inr (''empty.json'', ?loaded)
        \<and> tryRender exampleCore (hd (queuedScenes (status ?r))) ''empty.json''
             (?loaded\<lparr>status := (status ?loaded)\<lparr>totalSpp := spp exampleCore ''empty.json''\<rparr>\<rparr>)
           = Some (Inl (RuntimeError ''no camera'', ?failed))"
      by (simp add: defs)
    from renderScene_queue [of ?r exampleCore, THEN conjunct2, THEN conjunct2, THEN conjunct2,
        THEN conjunct1, rule_format, OF this]
    show ?thesis
      by (simp add: defs)
  qed
  from only progress idle good bad empty show ?thesis
    by blast
qed

section \<open>Properties of the weighting and of Russian roulette\<close>

lemma sum_list_nth_upt: "(\<Sum>i\<leftarrow>[0..<length xs]. xs ! i) = sum_list xs"
  by (simp add: map_nth)

lemma sum_list_pos_real:
  fixes xs :: "real list"
  assumes "xs \<noteq> []" and "\<forall>p \<in> set xs. 0 < p"
  shows "0 < sum_list xs"
  using assms
proof (induction xs)
  case Nil
  then show ?case by simp
next
  case (Cons x xs)
  show ?case
  proof (cases "xs = []")
    case True
    with Cons.prems show ?thesis by simp
  next
    case False
    with Cons have "0 < sum_list xs" by simp
    with Cons.prems show ?thesis by simp
  qed
qed

lemma sum_list_divide:
  fixes c :: real
  shows "(\<Sum>x\<leftarrow>xs. f x / c) = (\<Sum>x\<leftarrow>xs. f x) / c"
  by (induction xs) (simp_all add: add_divide_distrib)

lemma relativeDensity_sum:
  "(\<Sum>alt\<leftarrow>[0..<length pdfs]. relativeDensity pdfs used alt) = sum_list pdfs / pdfs ! used"
proof -
  have "(\<Sum>alt\<leftarrow>[0..<length pdfs]. relativeDensity pdfs used alt)
      = (\<Sum>alt\<leftarrow>[0..<length pdfs]. pdfs ! alt) / pdfs ! used"
    unfolding relativeDensity_def by (rule sum_list_divide)
  then show ?thesis
    by (simp add: sum_list_nth_upt)
qed

lemma misWeight_eq: "misWeight pdfs used = pdfs ! used / sum_list pdfs"
  by (simp add: misWeight_def relativeDensity_sum)

text \<open>
  Claim C1. For a path of fixed total length and any positive sampling densities of the
  valid alternative strategies, of which there is at least one, the balance-heuristic
  weights of all the strategies sum to exactly 1.
\<close>

theorem misWeights_sum_to_one:
  assumes "pdfs \<noteq> []" and "\<forall>p \<in> set pdfs. 0 < p"
  shows "misWeightSum pdfs = 1"
proof -
  have pos: "0 < sum_list pdfs"
    using assms by (rule sum_list_pos_real)
  have "misWeightSum pdfs = (\<Sum>used\<leftarrow>[0..<length pdfs]. pdfs ! used / sum_list pdfs)"
    by (simp add: misWeightSum_def misWeight_eq)
  also have "\<dots> = (\<Sum>used\<leftarrow>[0..<length pdfs]. pdfs ! used) / sum_list pdfs"
    by (rule sum_list_divide)
  also have "\<dots> = sum_list pdfs / sum_list pdfs"
    by (simp add: sum_list_nth_upt)
  also have "\<dots> = 1"
    using pos by simp
  finally show ?thesis .
qed

text \<open>The theorem at three strategies of densities 1, 3 and 4.\<close>

theorem misWeights_sum_to_one_witness:
  "[1, 3, 4 :: real] \<noteq> [] \<and> list_all (\<lambda>p. 0 < p) [1, 3, 4 :: real]
   \<and> misWeight [1, 3, 4] 0 = 1 / 8 \<and> misWeight [1, 3, 4] 1 = 3 / 8 \<and> misWeight [1, 3, 4] 2 = 1 / 2
   \<and> misWeightSum [1, 3, 4] = 1"
proof -
  have pre: "[1, 3, 4 :: real] \<noteq> []" "\<forall>p \<in> set [1, 3, 4 :: real]. 0 < p"
    by simp_all
  have w: "misWeight [1, 3, 4] 0 = 1 / 8" "misWeight [1, 3, 4] 1 = 3 / 8" "misWeight [1, 3, 4] 2 = 1 / 2"
    by (simp_all add: misWeight_def relativeDensity_def upt_conv_Cons)
  from misWeights_sum_to_one [OF pre] pre w show ?thesis
    by (simp add: list_all_iff)
qed

text \<open>
  Claim C2. For every continuation probability \<open>p\<close> in \<open>(0, 1]\<close> and every throughput,
  the Russian roulette step carries the throughput divided by \<open>p\<close> with probability \<open>p\<close>
  and nothing with probability \<open>1 - p\<close>; the two probabilities lie in \<open>[0, 1]\<close> and sum
  to 1, and the expectation of the step is the throughput itself, so the step does not
  increase it.
\<close>

theorem russianRoulette_unbiased:
  assumes "0 < p" and "p \<le> 1"
  shows "expectation (russianRoulette p throughput) = throughput
    \<and> expectation (russianRoulette p throughput) \<le> throughput
    \<and> (\<Sum>(q, v)\<leftarrow>russianRoulette p throughput. q) = 1
    \<and> (\<forall>(q, v) \<in> set (russianRoulette p throughput). 0 \<le> q \<and> q \<le> 1)"
  using assms by (simp add: expectation_def russianRoulette_def)

lemma continuationProbability_range:
  "0 < luminance \<Longrightarrow> 0 < continuationProbability luminance \<and> continuationProbability luminance \<le> 1"
  by (simp add: continuationProbability_def)

text \<open>
  The theorem at a throughput of 3 whose luminance is a quarter: the clamped
  continuation probability is a quarter.
\<close>

theorem russianRoulette_unbiased_witness:
  "0 < continuationProbability (1 / 4) \<and> continuationProbability (1 / 4) \<le> 1
   \<and> russianRoulette (continuationProbability (1 / 4)) 3 = [(1 / 4, 12), (3 / 4, 0)]
   \<and> expectation (russianRoulette (continuationProbability (1 / 4)) 3) = 3"
proof -
  have pre: "0 < continuationProbability (1 / 4)" "continuationProbability (1 / 4) \<le> 1"
    by (simp_all add: continuationProbability_def)
  have "russianRoulette (continuationProbability (1 / 4)) 3 = [(1 / 4, 12), (3 / 4, 0)]"
    by (simp add: russianRoulette_def continuationProbability_def)
  with russianRoulette_unbiased [OF pre, of 3] pre show ?thesis
    by simp
qed

end
